theory Spec2Isabelle
  imports Complex_Main "HOL-Library.Signed_Division" "HOL-Library.Monad_Syntax" "HOL-Library.Log_Nat"
begin

section \<open>Machine arithmetic\<close>

text \<open>
  Go's \<open>int\<close> is taken as 64 bits wide (the gc compiler on amd64 and arm64), so \<open>int\<close> and
  \<open>int64\<close> are both two's complement integers of 64 bits. A value is an \<open>int\<close> of HOL; every
  arithmetic operation of the source reduces its result to the range
  \<open>- 2 ^ 63 \<dots> 2 ^ 63 - 1\<close> with \<open>i64\<close>, as Go's wrap-around does. Division and remainder
  truncate toward zero (\<open>sdiv\<close>, \<open>smod\<close>); the one quotient that overflows,
  \<open>- 2 ^ 63 / - 1\<close>, wraps as well.
\<close>

definition i64 :: "int \<Rightarrow> int" where
  "i64 x = (x + 2 ^ 63) mod 2 ^ 64 - 2 ^ 63"

definition add64 :: "int \<Rightarrow> int \<Rightarrow> int" where
  "add64 a b = i64 (a + b)"

definition sub64 :: "int \<Rightarrow> int \<Rightarrow> int" where
  "sub64 a b = i64 (a - b)"

definition mul64 :: "int \<Rightarrow> int \<Rightarrow> int" where
  "mul64 a b = i64 (a * b)"

definition div64 :: "int \<Rightarrow> int \<Rightarrow> int" where
  "div64 a b = i64 (a sdiv b)"

text \<open>
  \<open>float64\<close> is IEEE 754 binary64 with rounding to nearest, ties to even. A finite value
  is the real number it denotes; the two infinities and NaN are kept, because the source
  divides by the bandwidth without checking it and uses \<open>math.Inf(1)\<close> as a sentinel. The
  sign of a zero is not kept: comparisons do not see it, and the only divisor of the source,
  the bandwidth converted from an integer, is never a negative zero.

  \<open>round64\<close> rounds a real number to float64. For \<open>0 < x\<close>, \<open>expo x\<close> is the exponent \<open>e\<close>
  with \<open>2 ^ e \<le> x < 2 ^ (e + 1)\<close>; below \<open>2 ^ - 1022\<close> the spacing of the subnormal numbers
  is used (\<open>binade\<close>). The value is rounded to a multiple of \<open>2 ^ (e - 52)\<close> (\<open>mant\<close>, with
  \<open>rne\<close> rounding to the nearest integer, ties to even), and it overflows to infinity when
  the result reaches \<open>2 ^ 1024\<close>.
\<close>

datatype f64 = Fin real | PInf | NInf | NaN

definition rne :: "real \<Rightarrow> int" where
  "rne x = (let f = \<lfloor>x\<rfloor>; d = x - of_int f
            in if d < 1 / 2 then f else if 1 / 2 < d then f + 1 else if even f then f else f + 1)"

definition expo :: "real \<Rightarrow> int" where
  "expo x = (if 1 \<le> x then bitlen \<lfloor>x\<rfloor> - 1 else - bitlen (\<lceil>1 / x\<rceil> - 1))"

definition binade :: "real \<Rightarrow> int" where
  "binade x = max (expo x) (- 1022)"

definition mant :: "real \<Rightarrow> int" where
  "mant x = rne (x / 2 powi (binade x - 52))"

definition round_pos :: "real \<Rightarrow> f64" where
  "round_pos x =
     (if 1024 \<le> binade x \<or> (binade x = 1023 \<and> mant x = 2 ^ 53) then PInf
      else Fin (of_int (mant x) * 2 powi (binade x - 52)))"

fun f64_neg :: "f64 \<Rightarrow> f64" where
  "f64_neg (Fin a) = Fin (- a)"
| "f64_neg PInf = NInf"
| "f64_neg NInf = PInf"
| "f64_neg NaN = NaN"

definition round64 :: "real \<Rightarrow> f64" where
  "round64 x = (if x = 0 then Fin 0 else if 0 < x then round_pos x else f64_neg (round_pos (- x)))"

text \<open>Addition and division round their exact result; the special values follow IEEE 754.\<close>

fun f64_add :: "f64 \<Rightarrow> f64 \<Rightarrow> f64" where
  "f64_add (Fin a) (Fin b) = round64 (a + b)"
| "f64_add NaN _ = NaN"
| "f64_add _ NaN = NaN"
| "f64_add PInf NInf = NaN"
| "f64_add NInf PInf = NaN"
| "f64_add PInf _ = PInf"
| "f64_add _ PInf = PInf"
| "f64_add NInf _ = NInf"
| "f64_add _ NInf = NInf"

fun f64_div :: "f64 \<Rightarrow> f64 \<Rightarrow> f64" where
  "f64_div (Fin a) (Fin b) =
     (if b = 0 then (if a = 0 then NaN else if 0 < a then PInf else NInf) else round64 (a / b))"
| "f64_div NaN _ = NaN"
| "f64_div _ NaN = NaN"
| "f64_div (Fin a) _ = Fin 0"
| "f64_div PInf (Fin b) = (if 0 \<le> b then PInf else NInf)"
| "f64_div NInf (Fin b) = (if 0 \<le> b then NInf else PInf)"
| "f64_div _ _ = NaN"

text \<open>Go's \<open><\<close> and \<open><=\<close> on float64: false as soon as one side is NaN.\<close>

fun f64_lt :: "f64 \<Rightarrow> f64 \<Rightarrow> bool" where
  "f64_lt (Fin a) (Fin b) = (a < b)"
| "f64_lt NaN _ = False"
| "f64_lt _ NaN = False"
| "f64_lt NInf NInf = False"
| "f64_lt NInf _ = True"
| "f64_lt _ NInf = False"
| "f64_lt PInf _ = False"
| "f64_lt _ PInf = True"

definition f64_le :: "f64 \<Rightarrow> f64 \<Rightarrow> bool" where
  "f64_le a b = (a \<noteq> NaN \<and> b \<noteq> NaN \<and> (a = b \<or> f64_lt a b))"

text \<open>The conversion \<open>float64(i)\<close> of an integer.\<close>

definition f64_of_int :: "int \<Rightarrow> f64" where
  "f64_of_int i = round64 (of_int i)"

section \<open>Data model (types.go)\<close>

text \<open>
  A slice is a list; indexing a slice out of range is a run-time
  panic in Go and is the value \<open>None\<close> here. A \<open>map[int]bool\<close> that is only ever
  assigned \<open>true\<close> is modelled by the list of its keys: building it from a slice is
  \<open>remdups\<close>, a lookup is membership, and a \<open>range\<close> loop visits the keys of the list
  (Go leaves the order open; the integer sums computed in such loops do not depend on it).
\<close>

record Tensor =
  Width :: int
  Height :: int

record Op =
  OpType :: string
  Inputs :: "int list"
  Outputs :: "int list"
  BaseCost :: int

record Problem =
  Tensors :: "Tensor list"
  Ops :: "Op list"
  FastMemoryCapacity :: int
  SlowMemoryBandwidth :: int
  NativeGranularity :: "int \<times> int"

type_synonym granularity = "int \<times> int \<times> int"

section \<open>Helpers (util.go)\<close>

definition nth_opt :: "'a list \<Rightarrow> int \<Rightarrow> 'a option" where
  "nth_opt xs i = (if 0 \<le> i \<and> i < int (length xs) then Some (xs ! nat i) else None)"

fun lookup_all :: "'a list \<Rightarrow> int list \<Rightarrow> 'a list option" where
  "lookup_all xs [] = Some []"
| "lookup_all xs (i # is) =
     (case nth_opt xs i of
        None \<Rightarrow> None
      | Some x \<Rightarrow> (case lookup_all xs is of None \<Rightarrow> None | Some ys \<Rightarrow> Some (x # ys)))"

text \<open>\<open>CeilDiv(a, b) = (a + b - 1) / b\<close>; a zero divisor panics.\<close>

definition CeilDiv :: "int \<Rightarrow> int \<Rightarrow> int option" where
  "CeilDiv a b = (if b = 0 then None else Some (div64 (sub64 (add64 a b) 1) b))"

definition MaxFloat :: "f64 \<Rightarrow> f64 \<Rightarrow> f64" where
  "MaxFloat a b = (if f64_lt b a then a else b)"

definition MinInt :: "int \<Rightarrow> int \<Rightarrow> int" where
  "MinInt a b = (if a < b then a else b)"

definition MaxInt :: "int \<Rightarrow> int \<Rightarrow> int" where
  "MaxInt a b = (if a > b then a else b)"

section \<open>Boundary of an op set (graph_analysis.go)\<close>

record SubgraphBoundary =
  BoundaryInputs :: "int list"
  BoundaryOutputs :: "int list"
  Ephemeral :: "int list"
  AllConsumed :: "int list"
  AllProduced :: "int list"

definition GetSubgraphBoundary :: "Problem \<Rightarrow> int list \<Rightarrow> SubgraphBoundary option" where
  "GetSubgraphBoundary p ops =
     (case lookup_all (Ops p) ops of
        None \<Rightarrow> None
      | Some os \<Rightarrow>
          (let produced = remdups (concat (map Outputs os));
               consumed = remdups (concat (map Inputs os));
               ephemeral = filter (\<lambda>t. t \<in> set consumed) produced
           in Some \<lparr> BoundaryInputs = filter (\<lambda>t. t \<notin> set produced) consumed,
                     BoundaryOutputs = filter (\<lambda>t. t \<notin> set ephemeral) produced,
                     Ephemeral = ephemeral,
                     AllConsumed = consumed,
                     AllProduced = produced \<rparr>))"

section \<open>Cost model (evaluate.go)\<close>

text \<open>
  \<open>InputTileSize\<close> and \<open>InputTileRole\<close> scan the ops in list order and, inside an op,
  the inputs in position order, and return at the first input equal to the tensor.
  \<open>first_pos\<close> is that first position.
\<close>

fun first_pos :: "int list \<Rightarrow> int \<Rightarrow> nat option" where
  "first_pos [] t = None"
| "first_pos (x # xs) t =
     (if x = t then Some 0 else (case first_pos xs t of None \<Rightarrow> None | Some n \<Rightarrow> Some (Suc n)))"

fun InputTileSize :: "Problem \<Rightarrow> int list \<Rightarrow> int \<Rightarrow> int \<Rightarrow> int \<Rightarrow> int \<Rightarrow> int option" where
  "InputTileSize p [] tensorIdx w h k = Some (mul64 w h)"
| "InputTileSize p (opIdx # rest) tensorIdx w h k =
     (case nth_opt (Ops p) opIdx of
        None \<Rightarrow> None
      | Some op \<Rightarrow>
          (case first_pos (Inputs op) tensorIdx of
             Some pos \<Rightarrow>
               Some (if OpType op = ''MatMul''
                     then (if pos = 0 then mul64 k h else mul64 w k)
                     else mul64 w h)
           | None \<Rightarrow> InputTileSize p rest tensorIdx w h k))"

datatype role = LHS | RHS | PW

fun InputTileRole :: "Problem \<Rightarrow> int list \<Rightarrow> int \<Rightarrow> role option" where
  "InputTileRole p [] tensorIdx = Some PW"
| "InputTileRole p (opIdx # rest) tensorIdx =
     (case nth_opt (Ops p) opIdx of
        None \<Rightarrow> None
      | Some op \<Rightarrow>
          (case first_pos (Inputs op) tensorIdx of
             Some pos \<Rightarrow>
               Some (if OpType op = ''MatMul'' then (if pos = 0 then LHS else RHS) else PW)
           | None \<Rightarrow> InputTileRole p rest tensorIdx))"

definition FullTensorSize :: "Problem \<Rightarrow> int \<Rightarrow> int option" where
  "FullTensorSize p tIdx =
     (case nth_opt (Tensors p) tIdx of None \<Rightarrow> None | Some t \<Rightarrow> Some (mul64 (Width t) (Height t)))"

text \<open>
  A loop \<open>for x := range xs { acc += f(x) }\<close> on an \<open>int64\<close> accumulator, whose body may
  panic: the wrapped sum of the values, or \<open>None\<close> as soon as one of them panics.
\<close>

fun sum_opt :: "('a \<Rightarrow> int option) \<Rightarrow> 'a list \<Rightarrow> int \<Rightarrow> int option" where
  "sum_opt f [] acc = Some acc"
| "sum_opt f (x # xs) acc = (case f x of None \<Rightarrow> None | Some v \<Rightarrow> sum_opt f xs (add64 acc v))"

definition ComputeWorkingSet :: "Problem \<Rightarrow> int list \<Rightarrow> granularity \<Rightarrow> int list \<Rightarrow> int option" where
  "ComputeWorkingSet p ops gran residentTensors =
     (case gran of (w, h, k) \<Rightarrow>
        (case GetSubgraphBoundary p ops of
           None \<Rightarrow> None
         | Some boundary \<Rightarrow>
             (case sum_opt (\<lambda>tIdx. if tIdx \<in> set residentTensors
                                    then FullTensorSize p tIdx
                                    else InputTileSize p ops tIdx w h k)
                     (BoundaryInputs boundary) 0 of
                None \<Rightarrow> None
              | Some ws1 \<Rightarrow>
                  (case sum_opt (\<lambda>tIdx. Some (mul64 w h)) (BoundaryOutputs boundary) ws1 of
                     None \<Rightarrow> None
                   | Some ws2 \<Rightarrow>
                       sum_opt (\<lambda>tIdx. if tIdx \<notin> set (BoundaryInputs boundary)
                                           \<and> tIdx \<notin> set (AllProduced boundary)
                                        then FullTensorSize p tIdx else Some 0)
                         (remdups residentTensors) ws2))))"

section \<open>Working set as the specification words it\<close>

text \<open>The sizes and the sum below are integers of HOL: nothing wraps.\<close>

definition full_size :: "Problem \<Rightarrow> int \<Rightarrow> int" where
  "full_size p t = Width (Tensors p ! nat t) * Height (Tensors p ! nat t)"

definition tile_size_spec :: "Problem \<Rightarrow> int list \<Rightarrow> int \<Rightarrow> int \<Rightarrow> int \<Rightarrow> int \<Rightarrow> int" where
  "tile_size_spec p ops t w h k =
     (case find (\<lambda>op. t \<in> set (Inputs op)) (map (\<lambda>i. Ops p ! nat i) ops) of
        None \<Rightarrow> w * h
      | Some op \<Rightarrow>
          if OpType op = ''MatMul'' then (if Inputs op ! 0 = t then k * h else w * k)
          else w * h)"

definition working_set_spec :: "Problem \<Rightarrow> int list \<Rightarrow> granularity \<Rightarrow> int set \<Rightarrow> int" where
  "working_set_spec p ops gran R =
     (case gran of (w, h, k) \<Rightarrow>
        (let os = map (\<lambda>i. Ops p ! nat i) ops;
             produced = (\<Union>op \<in> set os. set (Outputs op));
             consumed = (\<Union>op \<in> set os. set (Inputs op));
             boundary_inputs = consumed - produced;
             boundary_outputs = produced - consumed
         in (\<Sum>t \<in> boundary_inputs. if t \<in> R then full_size p t else tile_size_spec p ops t w h k)
            + (\<Sum>t \<in> boundary_outputs. w * h)
            + (\<Sum>t \<in> {t \<in> R. t \<notin> boundary_inputs \<and> t \<notin> produced}. full_size p t)))"

section \<open>Detailed latency (evaluate.go)\<close>

fun GetMaxK_loop :: "Problem \<Rightarrow> int list \<Rightarrow> int \<Rightarrow> int option" where
  "GetMaxK_loop p [] maxK = Some maxK"
| "GetMaxK_loop p (opIdx # rest) maxK =
     (case nth_opt (Ops p) opIdx of
        None \<Rightarrow> None
      | Some op \<Rightarrow>
          if OpType op = ''MatMul'' then
            (case nth_opt (Inputs op) 0 of
               None \<Rightarrow> None
             | Some t0 \<Rightarrow>
                 (case nth_opt (Tensors p) t0 of
                    None \<Rightarrow> None
                  | Some lhs \<Rightarrow>
                      GetMaxK_loop p rest (if Width lhs > maxK then Width lhs else maxK)))
          else GetMaxK_loop p rest maxK)"

definition GetMaxK :: "Problem \<Rightarrow> int list \<Rightarrow> int option" where
  "GetMaxK p ops = GetMaxK_loop p ops 1"

definition GetOutputTensor :: "Problem \<Rightarrow> int list \<Rightarrow> int option" where
  "GetOutputTensor p ops =
     (if ops = [] then None
      else (case nth_opt (Ops p) (last ops) of
              None \<Rightarrow> None
            | Some lastOp \<Rightarrow> nth_opt (Outputs lastOp) 0))"

fun HasMatMul :: "Problem \<Rightarrow> int list \<Rightarrow> bool option" where
  "HasMatMul p [] = Some False"
| "HasMatMul p (opIdx # rest) =
     (case nth_opt (Ops p) opIdx of
        None \<Rightarrow> None
      | Some op \<Rightarrow> if OpType op = ''MatMul'' then Some True else HasMatMul p rest)"

record tileInputInfo =
  tensorIdx :: int
  role :: role
  tileSize :: int
  fullSize :: int

fun map_opt :: "('a \<Rightarrow> 'b option) \<Rightarrow> 'a list \<Rightarrow> 'b list option" where
  "map_opt f [] = Some []"
| "map_opt f (x # xs) =
     (case f x of
        None \<Rightarrow> None
      | Some y \<Rightarrow> (case map_opt f xs of None \<Rightarrow> None | Some ys \<Rightarrow> Some (y # ys)))"

definition boundaryInputInfo :: "Problem \<Rightarrow> int list \<Rightarrow> int \<Rightarrow> int \<Rightarrow> int \<Rightarrow> int \<Rightarrow> tileInputInfo option" where
  "boundaryInputInfo p ops w h k tIdx =
     (case InputTileRole p ops tIdx of
        None \<Rightarrow> None
      | Some r \<Rightarrow>
          (case InputTileSize p ops tIdx w h k of
             None \<Rightarrow> None
           | Some tsize \<Rightarrow>
               (case FullTensorSize p tIdx of
                  None \<Rightarrow> None
                | Some full \<Rightarrow>
                    Some \<lparr> tensorIdx = tIdx, role = r, tileSize = tsize, fullSize = full \<rparr>)))"

text \<open>The reuse decision for one boundary input that is not resident.\<close>

definition canReuse :: "role \<Rightarrow> int \<Rightarrow> int \<Rightarrow> int \<Rightarrow> int \<Rightarrow> int \<Rightarrow> int \<Rightarrow> bool" where
  "canReuse r step kStep row prevRow col prevCol =
     (if step > 0 \<and> kStep = 0 then
        (case r of LHS \<Rightarrow> row = prevRow | RHS \<Rightarrow> col = prevCol | PW \<Rightarrow> False)
      else if kStep > 0 then r = PW
      else False)"

text \<open>
  The bytes moved in one k-step: the \<open>int64\<close> accumulator \<open>memoryBytes\<close> after the inner
  loops over the boundary inputs and, on the last k-step, over the boundary outputs.
\<close>

definition memoryBytes ::
  "tileInputInfo list \<Rightarrow> int list \<Rightarrow> int list \<Rightarrow> int list \<Rightarrow> int \<Rightarrow> int \<Rightarrow> int
     \<Rightarrow> int \<Rightarrow> int \<Rightarrow> int \<Rightarrow> int \<Rightarrow> int \<Rightarrow> int \<Rightarrow> int" where
  "memoryBytes infos residentTensors boundaryOutputs retainSet w h nK step kStep row prevRow col prevCol =
     (let loaded = foldl (\<lambda>bytes info.
                        if tensorIdx info \<in> set residentTensors then bytes
                        else if \<not> canReuse (role info) step kStep row prevRow col prevCol
                        then add64 bytes (tileSize info)
                        else bytes) 0 infos
      in if kStep = sub64 nK 1
         then foldl (\<lambda>bytes tIdx. if tIdx \<notin> set retainSet then add64 bytes (mul64 w h) else bytes)
                loaded boundaryOutputs
         else loaded)"

definition stepLatency :: "int \<Rightarrow> f64 \<Rightarrow> int \<Rightarrow> f64" where
  "stepLatency computePerStep bw bytes =
     MaxFloat (f64_of_int computePerStep) (f64_div (f64_of_int bytes) bw)"

text \<open>
  The loop over the spatial steps, carrying \<open>prevRow\<close>, \<open>prevCol\<close> and the running
  total; \<open>cost step kStep row prevRow col prevCol\<close> is the latency of one k-step. The
  counters \<open>step\<close> and \<open>kStep\<close> stay below \<open>nSpatial\<close> and \<open>nK\<close> and cannot wrap.
\<close>

fun spatial_loop ::
  "(int \<Rightarrow> int \<Rightarrow> int \<Rightarrow> int \<Rightarrow> int \<Rightarrow> int \<Rightarrow> f64) \<Rightarrow> int \<Rightarrow> int \<Rightarrow> int \<Rightarrow> int list
     \<Rightarrow> int \<Rightarrow> int \<Rightarrow> f64 \<Rightarrow> f64" where
  "spatial_loop cost nCols nK step [] prevRow prevCol totalLatency = totalLatency"
| "spatial_loop cost nCols nK step (tileIdx # rest) prevRow prevCol totalLatency =
     (let row = div64 tileIdx nCols;
          col = tileIdx smod nCols;
          total' = foldl (\<lambda>tot kStep. f64_add tot (cost step kStep row prevRow col prevCol))
                     totalLatency (map int [0..<nat nK])
      in spatial_loop cost nCols nK (step + 1) rest row col total')"

datatype fault = EmptyOps | InvalidGranularity int int int

text \<open>
  The body of \<open>EvaluateSubgraphDetailed\<close> after its two checks. \<open>None\<close> is a run-time
  panic: an index out of range, or \<open>make\<close> with a negative length when the default
  traversal is built for a negative tile count.
\<close>

definition esd_body ::
  "Problem \<Rightarrow> int list \<Rightarrow> int \<Rightarrow> int \<Rightarrow> int \<Rightarrow> int list \<Rightarrow> int list \<Rightarrow> int list \<Rightarrow> f64 option" where
  "esd_body p ops w h k tensorsToRetain traversalOrder residentTensors =
     do {
       boundary \<leftarrow> GetSubgraphBoundary p ops;
       primaryOutput \<leftarrow> GetOutputTensor p ops;
       outT \<leftarrow> nth_opt (Tensors p) primaryOutput;
       nCols \<leftarrow> CeilDiv (Width outT) w;
       nRows \<leftarrow> CeilDiv (Height outT) h;
       let nSpatial = mul64 nCols nRows;
       maxK \<leftarrow> GetMaxK p ops;
       nK \<leftarrow> CeilDiv maxK k;
       computePerStep \<leftarrow> sum_opt (\<lambda>opIdx. map_option BaseCost (nth_opt (Ops p) opIdx)) ops 0;
       let bw = f64_of_int (SlowMemoryBandwidth p);
       trav \<leftarrow> (if int (length traversalOrder) \<noteq> nSpatial
                then (if nSpatial < 0 then None else Some (map int [0..<nat nSpatial]))
                else Some traversalOrder);
       infos \<leftarrow> map_opt (boundaryInputInfo p ops w h k) (BoundaryInputs boundary);
       let retainSet = remdups tensorsToRetain;
       Some (spatial_loop
               (\<lambda>step kStep row prevRow col prevCol.
                   stepLatency computePerStep bw
                     (memoryBytes infos residentTensors (BoundaryOutputs boundary) retainSet
                        w h nK step kStep row prevRow col prevCol))
               nCols nK 0 trav (- 1) (- 1) (Fin 0))
     }"

text \<open>
  The outer option is the panic; \<open>Some (Inl e)\<close> is a returned error, \<open>Some (Inr l)\<close>
  a returned latency.
\<close>

definition EvaluateSubgraphDetailed ::
  "Problem \<Rightarrow> int list \<Rightarrow> granularity \<Rightarrow> int list \<Rightarrow> int list \<Rightarrow> int list \<Rightarrow> (fault + f64) option" where
  "EvaluateSubgraphDetailed p ops gran tensorsToRetain traversalOrder residentTensors =
     (case gran of (w, h, k) \<Rightarrow>
        if ops = [] then Some (Inl EmptyOps)
        else if w \<le> 0 \<or> h \<le> 0 \<or> k \<le> 0 then Some (Inl (InvalidGranularity w h k))
        else map_option Inr (esd_body p ops w h k tensorsToRetain traversalOrder residentTensors))"

section \<open>Evaluating a solution (evaluate.go)\<close>

record Subgraph =
  sgOps :: "int list"
  Granularity :: granularity
  TensorsToRetain :: "int list"
  TraversalOrder :: "int list"
  SubgraphLatency :: f64

type_synonym Solution = "Subgraph list"

datatype eval_error =
    NotCovered int
  | WorkingSetExceeds nat int int
  | SubgraphError nat fault

fun eval_loop :: "Problem \<Rightarrow> nat \<Rightarrow> Subgraph list \<Rightarrow> int list \<Rightarrow> f64 \<Rightarrow> (eval_error + f64) option" where
  "eval_loop p i [] resident totalLatency = Some (Inr totalLatency)"
| "eval_loop p i (sg # rest) resident totalLatency =
     (case ComputeWorkingSet p (sgOps sg) (Granularity sg) resident of
        None \<Rightarrow> None
      | Some ws \<Rightarrow>
          if ws > FastMemoryCapacity p
          then Some (Inl (WorkingSetExceeds i ws (FastMemoryCapacity p)))
          else (case EvaluateSubgraphDetailed p (sgOps sg) (Granularity sg) (TensorsToRetain sg)
                       (TraversalOrder sg) resident of
                  None \<Rightarrow> None
                | Some (Inl err) \<Rightarrow> Some (Inl (SubgraphError i err))
                | Some (Inr lat) \<Rightarrow>
                    eval_loop p (Suc i) rest (remdups (TensorsToRetain sg)) (f64_add totalLatency lat)))"

definition EvaluateSolution :: "Problem \<Rightarrow> Solution \<Rightarrow> (eval_error + f64) option" where
  "EvaluateSolution p sol =
     (let coveredOps = remdups (concat (map sgOps sol))
      in (case find (\<lambda>i. i \<notin> set coveredOps) (map int [0..<length (Ops p)]) of
            Some i \<Rightarrow> Some (Inl (NotCovered i))
          | None \<Rightarrow> eval_loop p 0 sol [] (Fin 0)))"

text \<open>The number of spatial tiles, as \<open>EvaluateSubgraphDetailed\<close> computes it.\<close>

definition spatialTiles :: "Problem \<Rightarrow> int list \<Rightarrow> int \<Rightarrow> int \<Rightarrow> int option" where
  "spatialTiles p ops w h =
     do {
       primaryOutput \<leftarrow> GetOutputTensor p ops;
       outT \<leftarrow> nth_opt (Tensors p) primaryOutput;
       nCols \<leftarrow> CeilDiv (Width outT) w;
       nRows \<leftarrow> CeilDiv (Height outT) h;
       Some (mul64 nCols nRows)
     }"

section \<open>Example problems\<close>

text \<open>A MatMul feeding a Pointwise op; all tensors are 4 by 4.\<close>

definition chainProblem :: Problem where
  "chainProblem =
     \<lparr> Tensors = [\<lparr>Width = 4, Height = 4\<rparr>, \<lparr>Width = 4, Height = 4\<rparr>,
                  \<lparr>Width = 4, Height = 4\<rparr>, \<lparr>Width = 4, Height = 4\<rparr>],
       Ops = [\<lparr>OpType = ''MatMul'', Inputs = [0, 1], Outputs = [2], BaseCost = 3\<rparr>,
              \<lparr>OpType = ''Pointwise'', Inputs = [2], Outputs = [3], BaseCost = 2\<rparr>],
       FastMemoryCapacity = 100,
       SlowMemoryBandwidth = 1,
       NativeGranularity = (2, 2) \<rparr>"

text \<open>One Pointwise op with two inputs on 1 by 1 tensors, and a capacity of two units.\<close>

definition tinyProblem :: Problem where
  "tinyProblem =
     \<lparr> Tensors = [\<lparr>Width = 1, Height = 1\<rparr>, \<lparr>Width = 1, Height = 1\<rparr>, \<lparr>Width = 1, Height = 1\<rparr>],
       Ops = [\<lparr>OpType = ''Pointwise'', Inputs = [0, 1], Outputs = [2], BaseCost = 1\<rparr>],
       FastMemoryCapacity = 2,
       SlowMemoryBandwidth = 1,
       NativeGranularity = (1, 1) \<rparr>"

text \<open>A solution that lists op 0 of \<open>chainProblem\<close> in two subgraphs.\<close>

definition duplicateSolution :: Solution where
  "duplicateSolution =
     [\<lparr> sgOps = [0], Granularity = (2, 2, 2), TensorsToRetain = [], TraversalOrder = [],
         SubgraphLatency = Fin 0 \<rparr>,
      \<lparr> sgOps = [0, 1], Granularity = (2, 2, 2), TensorsToRetain = [], TraversalOrder = [],
         SubgraphLatency = Fin 0 \<rparr>]"

section \<open>Retention pruner (pruneRetentions)\<close>

record ScheduleEntry =
  seOps :: "int list"
  seGranularity :: granularity
  Traversal :: "int list"
  Retain :: "int list"
  Latency :: f64

text \<open>\<open>newRetain\<close>: the retained tensors but the one at index \<open>rIdx\<close>.\<close>

definition remove_nth :: "nat \<Rightarrow> 'a list \<Rightarrow> 'a list" where
  "remove_nth rIdx xs = take rIdx xs @ drop (Suc rIdx) xs"

text \<open>The tensors resident when group \<open>i\<close> starts: those the group before it retains.\<close>

definition residency :: "ScheduleEntry list \<Rightarrow> nat \<Rightarrow> int list" where
  "residency schedule i = (if i > 0 then remdups (Retain (schedule ! (i - 1))) else [])"

text \<open>
  One iteration of the innermost loop: try to drop the retained tensor at \<open>rIdx\<close> of
  group \<open>i\<close>. The result is the schedule and whether it was changed; an error of the
  detailed evaluation skips the iteration (\<open>continue\<close>), a panic is \<open>None\<close>.
\<close>

definition prune_try :: "Problem \<Rightarrow> ScheduleEntry list \<Rightarrow> nat \<Rightarrow> nat \<Rightarrow> (ScheduleEntry list \<times> bool) option" where
  "prune_try p schedule i rIdx =
     (let cur = schedule ! i;
          hasNext = (i + 1 < length schedule);
          currentTotal = (if hasNext then f64_add (Latency cur) (Latency (schedule ! (i + 1)))
                          else Latency cur);
          newRetain = remove_nth rIdx (Retain cur);
          residentI = residency schedule i
      in (case EvaluateSubgraphDetailed p (seOps cur) (seGranularity cur) newRetain (Traversal cur) residentI of
            None \<Rightarrow> None
          | Some (Inl errI) \<Rightarrow> Some (schedule, False)
          | Some (Inr latI) \<Rightarrow>
              if hasNext then
                (let nxt = schedule ! (i + 1)
                 in (case EvaluateSubgraphDetailed p (seOps nxt) (seGranularity nxt) (Retain nxt)
                            (Traversal nxt) (remdups newRetain) of
                       None \<Rightarrow> None
                     | Some (Inl errNext) \<Rightarrow> Some (schedule, False)
                     | Some (Inr latNext) \<Rightarrow>
                         if f64_lt (f64_add latI latNext) currentTotal
                         then Some ((schedule[i := cur\<lparr>Retain := newRetain, Latency := latI\<rparr>])
                                      [i + 1 := nxt\<lparr>Latency := latNext\<rparr>], True)
                         else Some (schedule, False)))
              else if f64_lt latI currentTotal
                   then Some (schedule[i := cur\<lparr>Retain := newRetain, Latency := latI\<rparr>], True)
                   else Some (schedule, False)))"

text \<open>The loop \<open>for rIdx := n - 1; rIdx >= 0; rIdx--\<close>.\<close>

fun prune_rloop :: "Problem \<Rightarrow> ScheduleEntry list \<Rightarrow> nat \<Rightarrow> nat \<Rightarrow> bool \<Rightarrow> (ScheduleEntry list \<times> bool) option" where
  "prune_rloop p schedule i 0 improved = Some (schedule, improved)"
| "prune_rloop p schedule i (Suc rIdx) improved =
     (case prune_try p schedule i rIdx of
        None \<Rightarrow> None
      | Some (schedule', changed) \<Rightarrow> prune_rloop p schedule' i rIdx (improved \<or> changed))"

text \<open>The loop \<open>for i := range schedule\<close>, over the indices still to visit.\<close>

fun prune_pass :: "Problem \<Rightarrow> ScheduleEntry list \<Rightarrow> nat list \<Rightarrow> bool \<Rightarrow> (ScheduleEntry list \<times> bool) option" where
  "prune_pass p schedule [] improved = Some (schedule, improved)"
| "prune_pass p schedule (i # rest) improved =
     (if Retain (schedule ! i) = [] then prune_pass p schedule rest improved
      else (case prune_rloop p schedule i (length (Retain (schedule ! i))) improved of
              None \<Rightarrow> None
            | Some (schedule', improved') \<Rightarrow> prune_pass p schedule' rest improved'))"

definition retained_count :: "ScheduleEntry list \<Rightarrow> nat" where
  "retained_count schedule = sum_list (map (\<lambda>e. length (Retain e)) schedule)"

lemma length_remove_nth: "rIdx < length xs \<Longrightarrow> length (remove_nth rIdx xs) < length xs"
  by (simp add: remove_nth_def)

lemma retained_count_update:
  "i < length s \<Longrightarrow>
   retained_count (s[i := e]) + length (Retain (s ! i)) = retained_count s + length (Retain e)"
  unfolding retained_count_def
proof (induction s arbitrary: i)
  case Nil
  then show ?case by simp
next
  case (Cons a s)
  then show ?case by (cases i) auto
qed

lemma retained_count_update_same:
  "i < length s \<Longrightarrow> Retain e = Retain (s ! i) \<Longrightarrow> retained_count (s[i := e]) = retained_count s"
  using retained_count_update[of i s e] by simp

lemma prune_try_count:
  assumes "prune_try p s i r = Some (s', b)" and "i < length s" and "r < length (Retain (s ! i))"
  shows "length s' = length s
       \<and> (if b then retained_count s' < retained_count s
                    \<and> Suc (length (Retain (s' ! i))) = length (Retain (s ! i))
           else s' = s)"
proof -
  let ?e = "(s ! i)\<lparr>Retain := remove_nth r (Retain (s ! i)), Latency := l\<rparr>"
  have one: "retained_count (s[i := (s ! i)\<lparr>Retain := remove_nth r (Retain (s ! i)), Latency := l\<rparr>])
               < retained_count s" for l
    using retained_count_update[of i s "(s ! i)\<lparr>Retain := remove_nth r (Retain (s ! i)), Latency := l\<rparr>"]
      length_remove_nth[OF assms(3)] assms(2) by simp
  have two: "Suc i < length s \<Longrightarrow>
      retained_count ((s[i := (s ! i)\<lparr>Retain := remove_nth r (Retain (s ! i)), Latency := l\<rparr>])
                        [Suc i := (s ! Suc i)\<lparr>Latency := l'\<rparr>]) < retained_count s" for l l'
    using one[of l]
      retained_count_update_same[of "Suc i" "s[i := (s ! i)\<lparr>Retain := remove_nth r (Retain (s ! i)), Latency := l\<rparr>]"
         "(s ! Suc i)\<lparr>Latency := l'\<rparr>"]
    by simp
  have len: "Suc (length (remove_nth r (Retain (s ! i)))) = length (Retain (s ! i))"
    using assms(3) by (simp add: remove_nth_def)
  show ?thesis
    using assms(1,2) one two len
    by (auto simp: prune_try_def Let_def split: option.splits sum.splits if_splits)
qed

lemma prune_rloop_count:
  assumes "prune_rloop p s i n imp = Some (s', imp')" and "i < length s"
      and "n \<le> length (Retain (s ! i))"
  shows "length s' = length s \<and> retained_count s' \<le> retained_count s
       \<and> (imp' \<and> \<not> imp \<longrightarrow> retained_count s' < retained_count s)
       \<and> (imp \<longrightarrow> imp')"
  using assms
proof (induction n arbitrary: s imp)
  case 0
  then show ?case by simp
next
  case (Suc n)
  from Suc.prems(1) obtain s1 b where t: "prune_try p s i n = Some (s1, b)"
    and r: "prune_rloop p s1 i n (imp \<or> b) = Some (s', imp')"
    by (auto split: option.splits)
  have c: "length s1 = length s
       \<and> (if b then retained_count s1 < retained_count s
                    \<and> Suc (length (Retain (s1 ! i))) = length (Retain (s ! i))
           else s1 = s)"
    using prune_try_count[OF t Suc.prems(2)] Suc.prems(3) by simp
  then have n: "n \<le> length (Retain (s1 ! i))" using Suc.prems(3) by (auto split: if_splits)
  have i: "i < length s1" using c Suc.prems(2) by simp
  from Suc.IH[OF r i n] c show ?case by (auto split: if_splits)
qed

lemma prune_pass_count:
  assumes "prune_pass p s is imp = Some (s', imp')" and "\<forall>i \<in> set is. i < length s"
  shows "length s' = length s \<and> retained_count s' \<le> retained_count s
       \<and> (imp' \<and> \<not> imp \<longrightarrow> retained_count s' < retained_count s)
       \<and> (imp \<longrightarrow> imp')"
  using assms
proof (induction "is" arbitrary: s imp)
  case Nil
  then show ?case by simp
next
  case (Cons i rest)
  show ?case
  proof (cases "Retain (s ! i) = []")
    case True
    with Cons.prems have q: "prune_pass p s rest imp = Some (s', imp')"
      and "\<forall>i \<in> set rest. i < length s" by simp_all
    from Cons.IH[OF this] show ?thesis .
  next
    case False
    with Cons.prems(1) obtain s1 imp1 where
      r: "prune_rloop p s i (length (Retain (s ! i))) imp = Some (s1, imp1)"
      and q: "prune_pass p s1 rest imp1 = Some (s', imp')"
      by (auto split: option.splits)
    have i: "i < length s" using Cons.prems(2) by simp
    from prune_rloop_count[OF r i] have c: "length s1 = length s \<and> retained_count s1 \<le> retained_count s
       \<and> (imp1 \<and> \<not> imp \<longrightarrow> retained_count s1 < retained_count s) \<and> (imp \<longrightarrow> imp1)"
      by simp
    then have "\<forall>i \<in> set rest. i < length s1" using Cons.prems(2) by simp
    from Cons.IH[OF q this] c show ?thesis by auto
  qed
qed

text \<open>
  The outer loop \<open>for improved\<close>. Every pass that reports an improvement has removed a
  retained tensor, so the loop ends.
\<close>

function pruneRetentions :: "Problem \<Rightarrow> ScheduleEntry list \<Rightarrow> ScheduleEntry list option" where
  "pruneRetentions p schedule =
     (case prune_pass p schedule [0..<length schedule] False of
        None \<Rightarrow> None
      | Some (schedule', improved) \<Rightarrow>
          if improved then pruneRetentions p schedule' else Some schedule')"
  by pat_completeness auto
termination
proof (relation "measure (\<lambda>(p, schedule). retained_count schedule)")
  show "wf (measure (\<lambda>(p, schedule). retained_count schedule))" by simp
next
  fix p schedule x2 schedule' improved
  assume a: "prune_pass p schedule [0..<length schedule] False = Some x2"
     and b: "(schedule', improved) = x2" and c: "improved"
  have "\<forall>i \<in> set [0..<length schedule]. i < length schedule" by simp
  from prune_pass_count[OF _ this, of p False schedule' improved] a b c
  show "((p, schedule'), (p, schedule)) \<in> measure (\<lambda>(p, schedule). retained_count schedule)"
    by auto
qed

text \<open>
  The detailed latency of every group of a schedule, each under the residency that the
  retention set of the group before it induces. A schedule is consistent when these are
  the latencies it stores: this is how \<open>OptimizeSchedule\<close> fills the field before it calls
  the pruner.
\<close>

definition schedule_latencies :: "Problem \<Rightarrow> ScheduleEntry list \<Rightarrow> (fault + f64) option list" where
  "schedule_latencies p schedule =
     map (\<lambda>i. EvaluateSubgraphDetailed p (seOps (schedule ! i)) (seGranularity (schedule ! i))
                 (Retain (schedule ! i)) (Traversal (schedule ! i)) (residency schedule i))
       [0..<length schedule]"

definition consistent :: "Problem \<Rightarrow> ScheduleEntry list \<Rightarrow> bool" where
  "consistent p schedule =
     (schedule_latencies p schedule = map (\<lambda>e. Some (Inr (Latency e))) schedule)"

text \<open>
  The stored latency of group \<open>i\<close> plus that of the group after it, as the pruner adds
  them (\<open>currentTotal\<close>, \<open>newTotal\<close>).
\<close>

definition pair_latency :: "ScheduleEntry list \<Rightarrow> nat \<Rightarrow> f64" where
  "pair_latency schedule i =
     (if i + 1 < length schedule then f64_add (Latency (schedule ! i)) (Latency (schedule ! (i + 1)))
      else Latency (schedule ! i))"

text \<open>The sum of the stored latencies of a schedule, as a real number.\<close>

fun is_Fin :: "f64 \<Rightarrow> bool" where
  "is_Fin (Fin r) = True"
| "is_Fin _ = False"

fun fin_val :: "f64 \<Rightarrow> real" where
  "fin_val (Fin r) = r"
| "fin_val _ = 0"

definition real_total :: "ScheduleEntry list \<Rightarrow> real" where
  "real_total s = sum_list (map (\<lambda>e. fin_val (Latency e)) s)"

definition all_Fin :: "ScheduleEntry list \<Rightarrow> bool" where
  "all_Fin s = list_all (\<lambda>e. is_Fin (Latency e)) s"

text \<open>
  A schedule for \<open>chainProblem\<close> whose stored latencies are stale: under the retention of
  tensor 2 the two groups evaluate to 56 and 16.
\<close>

definition staleSchedule :: "ScheduleEntry list" where
  "staleSchedule =
     [\<lparr> seOps = [0], seGranularity = (2, 2, 2), Traversal = [], Retain = [2], Latency = Fin 1000 \<rparr>,
      \<lparr> seOps = [1], seGranularity = (2, 2, 1), Traversal = [], Retain = [], Latency = Fin 10 \<rparr>]"

definition prunedSchedule :: "ScheduleEntry list" where
  "prunedSchedule =
     [\<lparr> seOps = [0], seGranularity = (2, 2, 2), Traversal = [], Retain = [], Latency = Fin 72 \<rparr>,
      \<lparr> seOps = [1], seGranularity = (2, 2, 1), Traversal = [], Retain = [], Latency = Fin 32 \<rparr>]"

text \<open>
  A consistent schedule for \<open>tinyProblem\<close> with one group that retains its output, at a
  granularity whose tile area exceeds \<open>2 ^ 63\<close>.
\<close>

definition wideSchedule :: "ScheduleEntry list" where
  "wideSchedule =
     [\<lparr> seOps = [0], seGranularity = (3037000500, 3037000500, 1), Traversal = [], Retain = [2],
         Latency = Fin 290948384 \<rparr>]"

definition widePruned :: "ScheduleEntry list" where
  "widePruned =
     [\<lparr> seOps = [0], seGranularity = (3037000500, 3037000500, 1), Traversal = [], Retain = [],
         Latency = Fin 1 \<rparr>]"

section \<open>Granularity fallback (findSmallestFeasible)\<close>

text \<open>The values of a loop \<open>for v := n; v >= 1; v /= 2\<close>.\<close>

function halvings :: "int \<Rightarrow> int list" where
  "halvings n = (if 1 \<le> n then n # halvings (n sdiv 2) else [])"
  by pat_completeness auto
termination
  by (relation "measure nat") (auto simp: signed_divide_int_def)

declare halvings.simps [simp del]

text \<open>
  The three nested loops. The inner result is \<open>Some gran\<close> at the \<open>return\<close>, \<open>None\<close>
  when the loop ends without one; the outer option is the panic. Without a MatMul the
  k-loop is left after its first iteration (\<open>break\<close>).
\<close>

fun fsf_kloop :: "Problem \<Rightarrow> int list \<Rightarrow> int list \<Rightarrow> int \<Rightarrow> int \<Rightarrow> int list \<Rightarrow> granularity option option" where
  "fsf_kloop p ops residentTensors w h [] = Some None"
| "fsf_kloop p ops residentTensors w h (k # ks) =
     (case ComputeWorkingSet p ops (w, h, k) residentTensors of
        None \<Rightarrow> None
      | Some ws \<Rightarrow>
          if ws \<le> FastMemoryCapacity p then Some (Some (w, h, k))
          else (case HasMatMul p ops of
                  None \<Rightarrow> None
                | Some hasMatmul \<Rightarrow>
                    if \<not> hasMatmul then Some None
                    else fsf_kloop p ops residentTensors w h ks))"

fun fsf_hloop :: "Problem \<Rightarrow> int list \<Rightarrow> int list \<Rightarrow> int \<Rightarrow> int list \<Rightarrow> int list \<Rightarrow> granularity option option" where
  "fsf_hloop p ops residentTensors w [] ks = Some None"
| "fsf_hloop p ops residentTensors w (h # hs) ks =
     (case fsf_kloop p ops residentTensors w h ks of
        None \<Rightarrow> None
      | Some (Some gran) \<Rightarrow> Some (Some gran)
      | Some None \<Rightarrow> fsf_hloop p ops residentTensors w hs ks)"

fun fsf_wloop :: "Problem \<Rightarrow> int list \<Rightarrow> int list \<Rightarrow> int list \<Rightarrow> int list \<Rightarrow> int list \<Rightarrow> granularity option option" where
  "fsf_wloop p ops residentTensors [] hs ks = Some None"
| "fsf_wloop p ops residentTensors (w # ws) hs ks =
     (case fsf_hloop p ops residentTensors w hs ks of
        None \<Rightarrow> None
      | Some (Some gran) \<Rightarrow> Some (Some gran)
      | Some None \<Rightarrow> fsf_wloop p ops residentTensors ws hs ks)"

definition findSmallestFeasible :: "Problem \<Rightarrow> int list \<Rightarrow> int list \<Rightarrow> granularity option" where
  "findSmallestFeasible p ops residentTensors =
     (case NativeGranularity p of (nw, nh) \<Rightarrow>
        (case GetMaxK p ops of
           None \<Rightarrow> None
         | Some maxK \<Rightarrow>
             (case fsf_wloop p ops residentTensors (halvings nw) (halvings nh) (halvings maxK) of
                None \<Rightarrow> None
              | Some (Some gran) \<Rightarrow> Some gran
              | Some None \<Rightarrow> Some (1, 1, 1))))"

section \<open>Detailed latency as the specification words it\<close>

text \<open>
  The role of a boundary input is that of its first use: by the first op of the list that
  consumes it, at the first position where it occurs.
\<close>

definition role_spec :: "Problem \<Rightarrow> int list \<Rightarrow> int \<Rightarrow> role" where
  "role_spec p ops t =
     (case find (\<lambda>op. t \<in> set (Inputs op)) (map (\<lambda>i. Ops p ! nat i) ops) of
        None \<Rightarrow> PW
      | Some op \<Rightarrow>
          if OpType op = ''MatMul'' then (if Inputs op ! 0 = t then LHS else RHS) else PW)"

text \<open>
  Whether a boundary input is loaded in k-step \<open>kStep\<close> of spatial step \<open>step\<close>, for the
  tile \<open>tile\<close> visited after \<open>prevTile\<close> on a grid of \<open>nCols\<close> columns: (a) never when it
  is resident; (b) not on k-step 0 of a later step for an LHS in the same row or an RHS in
  the same column; (c) not on a later k-step for a Pointwise input. The row and the column
  of a tile index are its quotient and remainder by \<open>nCols\<close>, as the code computes them.
\<close>

definition reloads :: "role \<Rightarrow> bool \<Rightarrow> nat \<Rightarrow> nat \<Rightarrow> int \<Rightarrow> int \<Rightarrow> int \<Rightarrow> bool" where
  "reloads r resident step kStep nCols tile prevTile =
     (\<not> resident
      \<and> \<not> (kStep = 0 \<and> 0 < step
             \<and> (r = LHS \<and> div64 tile nCols = div64 prevTile nCols
                 \<or> r = RHS \<and> tile smod nCols = prevTile smod nCols))
      \<and> \<not> (0 < kStep \<and> r = PW))"

text \<open>The LHS widths of the MatMul ops of the op set, and the largest of them (1 if none).\<close>

definition lhs_widths :: "Problem \<Rightarrow> int list \<Rightarrow> int list" where
  "lhs_widths p ops =
     map (\<lambda>op. Width (Tensors p ! nat (Inputs op ! 0)))
       (filter (\<lambda>op. OpType op = ''MatMul'') (map (\<lambda>i. Ops p ! nat i) ops))"

definition maxK_spec :: "Problem \<Rightarrow> int list \<Rightarrow> int" where
  "maxK_spec p ops = (if lhs_widths p ops = [] then 1 else Max (set (lhs_widths p ops)))"

definition ceiling_div :: "int \<Rightarrow> int \<Rightarrow> int" where
  "ceiling_div a b = \<lceil>real_of_int a / real_of_int b\<rceil>"

text \<open>
  The grid of a subgraph: the columns and rows of tiles of the primary output, and the
  number of k-steps.
\<close>

definition out_tensor :: "Problem \<Rightarrow> int list \<Rightarrow> Tensor" where
  "out_tensor p ops = Tensors p ! nat (Outputs (Ops p ! nat (last ops)) ! 0)"

definition nCols_spec :: "Problem \<Rightarrow> int list \<Rightarrow> int \<Rightarrow> int" where
  "nCols_spec p ops w = ceiling_div (Width (out_tensor p ops)) w"

definition nRows_spec :: "Problem \<Rightarrow> int list \<Rightarrow> int \<Rightarrow> int" where
  "nRows_spec p ops h = ceiling_div (Height (out_tensor p ops)) h"

definition nK_spec :: "Problem \<Rightarrow> int list \<Rightarrow> int \<Rightarrow> int" where
  "nK_spec p ops k = ceiling_div (maxK_spec p ops) k"

text \<open>
  The order in which the tiles are visited: the given one when its length is the number of
  tiles, the row-major order otherwise.
\<close>

definition order_spec :: "Problem \<Rightarrow> int list \<Rightarrow> granularity \<Rightarrow> int list \<Rightarrow> int list" where
  "order_spec p ops gran trav =
     (case gran of (w, h, k) \<Rightarrow>
        (let nSpatial = nCols_spec p ops w * nRows_spec p ops h
         in if int (length trav) = nSpatial then trav else map int [0..<nat nSpatial]))"

text \<open>
  The bytes the specification counts in k-step \<open>kStep\<close> of spatial step \<open>step\<close>, as an
  integer of HOL (nothing wraps): the tile size of every boundary input that is loaded, and
  on the last k-step \<open>w * h\<close> for every boundary output that is not retained.
\<close>

definition loaded_bytes_spec ::
  "Problem \<Rightarrow> int list \<Rightarrow> granularity \<Rightarrow> int list \<Rightarrow> int list \<Rightarrow> int set \<Rightarrow> nat \<Rightarrow> nat \<Rightarrow> int" where
  "loaded_bytes_spec p ops gran retain trav R step kStep =
     (case gran of (w, h, k) \<Rightarrow>
        (let os = map (\<lambda>i. Ops p ! nat i) ops;
             produced = (\<Union>op \<in> set os. set (Outputs op));
             consumed = (\<Union>op \<in> set os. set (Inputs op));
             boundary_inputs = consumed - produced;
             boundary_outputs = produced - consumed;
             order = order_spec p ops gran trav
         in (\<Sum>t \<in> boundary_inputs.
                if reloads (role_spec p ops t) (t \<in> R) step kStep (nCols_spec p ops w)
                     (order ! step) (order ! (step - 1))
                then tile_size_spec p ops t w h k else 0)
            + (if int kStep = nK_spec p ops k - 1
               then (\<Sum>t \<in> boundary_outputs - set retain. w * h) else 0)))"

text \<open>
  The latency of one step: the larger of the sum of the base costs and of the loaded bytes
  over the bandwidth, where both integers are \<open>int64\<close> values converted to float64 and the
  quotient is rounded.
\<close>

definition step_latency_spec ::
  "Problem \<Rightarrow> int list \<Rightarrow> granularity \<Rightarrow> int list \<Rightarrow> int list \<Rightarrow> int set \<Rightarrow> nat \<Rightarrow> nat \<Rightarrow> f64" where
  "step_latency_spec p ops gran retain trav R step kStep =
     MaxFloat (f64_of_int (i64 (\<Sum>i \<leftarrow> ops. BaseCost (Ops p ! nat i))))
       (f64_div (f64_of_int (i64 (loaded_bytes_spec p ops gran retain trav R step kStep)))
          (f64_of_int (SlowMemoryBandwidth p)))"

text \<open>
  The detailed latency: the step latencies added in float64, tile after tile in traversal
  order and k-step after k-step within a tile.
\<close>

definition detailed_latency_spec ::
  "Problem \<Rightarrow> int list \<Rightarrow> granularity \<Rightarrow> int list \<Rightarrow> int list \<Rightarrow> int set \<Rightarrow> f64" where
  "detailed_latency_spec p ops gran retain trav R =
     (case gran of (w, h, k) \<Rightarrow>
        foldl f64_add (Fin 0)
          (concat (map (\<lambda>step. map (step_latency_spec p ops gran retain trav R step)
                                  [0..<nat (nK_spec p ops k)])
                     [0..<nat (nCols_spec p ops w * nRows_spec p ops h)])))"

text \<open>
  A well-formed op set: the op list is not empty, its indices denote ops, the tensors the
  ops consume exist, a MatMul has an LHS, the last op has an output that exists, and every
  tensor has positive dimensions.
\<close>

definition wf_subgraph :: "Problem \<Rightarrow> int list \<Rightarrow> bool" where
  "wf_subgraph p ops =
     (ops \<noteq> []
      \<and> list_all (\<lambda>i. 0 \<le> i \<and> i < int (length (Ops p))) ops
      \<and> list_all (\<lambda>i. list_all (\<lambda>t. 0 \<le> t \<and> t < int (length (Tensors p))) (Inputs (Ops p ! nat i))
                      \<and> (OpType (Ops p ! nat i) = ''MatMul'' \<longrightarrow> Inputs (Ops p ! nat i) \<noteq> [])) ops
      \<and> Outputs (Ops p ! nat (last ops)) \<noteq> []
      \<and> 0 \<le> Outputs (Ops p ! nat (last ops)) ! 0
      \<and> Outputs (Ops p ! nat (last ops)) ! 0 < int (length (Tensors p))
      \<and> list_all (\<lambda>T. 0 < Width T \<and> 0 < Height T) (Tensors p))"

text \<open>
  The grid fits the machine integers: the sums that \<open>CeilDiv\<close> forms for the columns, the
  rows and the k-steps, and the number of tiles, are below \<open>2 ^ 63\<close>.
\<close>

definition grid_fits :: "Problem \<Rightarrow> int list \<Rightarrow> granularity \<Rightarrow> bool" where
  "grid_fits p ops gran =
     (case gran of (w, h, k) \<Rightarrow>
        Width (out_tensor p ops) + w \<le> 2 ^ 63
        \<and> Height (out_tensor p ops) + h \<le> 2 ^ 63
        \<and> maxK_spec p ops + k \<le> 2 ^ 63
        \<and> nCols_spec p ops w * nRows_spec p ops h < 2 ^ 63)"

section \<open>Rounding to float64 is monotone\<close>

lemma rne_bounds: "\<lfloor>x\<rfloor> \<le> rne x \<and> rne x \<le> \<lfloor>x\<rfloor> + 1"
  by (simp add: rne_def Let_def)

lemma rne_of_int: "rne (of_int n) = n"
  by (simp add: rne_def)

lemma rne_mono:
  assumes "x \<le> y"
  shows "rne x \<le> rne y"
proof (cases "\<lfloor>x\<rfloor> = \<lfloor>y\<rfloor>")
  case True
  then have "x - of_int \<lfloor>x\<rfloor> \<le> y - of_int \<lfloor>y\<rfloor>" using assms by simp
  then show ?thesis using True by (auto simp: rne_def Let_def)
next
  case False
  have "\<lfloor>x\<rfloor> \<le> \<lfloor>y\<rfloor>" using assms by (rule floor_mono)
  with False have "\<lfloor>x\<rfloor> + 1 \<le> \<lfloor>y\<rfloor>" by simp
  then show ?thesis using rne_bounds[of x] rne_bounds[of y] by linarith
qed

lemma expo_bounds:
  assumes "0 < x"
  shows "2 powi (expo x) \<le> x" and "x < 2 powi (expo x + 1)"
proof -
  have "2 powi (expo x) \<le> x \<and> x < 2 powi (expo x + 1)"
  proof (cases "1 \<le> x")
    case True
    define n where "n = \<lfloor>x\<rfloor>"
    have n: "0 < n" using True by (simp add: n_def)
    have b1: "1 \<le> bitlen n" using n bitlen_eq_zero_iff[of n] bitlen_nonneg[of n] by linarith
    from bitlen_bounds[OF n] have lo: "2 ^ nat (bitlen n - 1) \<le> n" and hi: "n < 2 ^ nat (bitlen n)"
      by simp_all
    have e: "expo x = bitlen n - 1" using True by (simp add: expo_def n_def)
    have "(2::real) powi (bitlen n - 1) = 2 ^ nat (bitlen n - 1)"
      using b1 by (simp add: power_int_def)
    also have "\<dots> = of_int (2 ^ nat (bitlen n - 1))" by simp
    also have "\<dots> \<le> of_int n" using lo by (simp only: of_int_le_iff)
    also have "\<dots> \<le> x" by (simp add: n_def)
    finally have A: "2 powi (expo x) \<le> x" unfolding e .
    have "n + 1 \<le> 2 ^ nat (bitlen n)" using hi by simp
    then have "(of_int (n + 1) :: real) \<le> of_int (2 ^ nat (bitlen n))" by (simp only: of_int_le_iff)
    moreover have "x < of_int (n + 1)" by (simp add: n_def)
    moreover have "(2::real) powi (bitlen n - 1 + 1) = 2 ^ nat (bitlen n)"
      using b1 by (simp add: power_int_def)
    ultimately have B: "x < 2 powi (expo x + 1)" unfolding e by simp
    from A B show ?thesis ..
  next
    case False
    define y where "y = 1 / x"
    define n where "n = \<lceil>y\<rceil> - 1"
    have y1: "1 < y" using False assms by (simp add: y_def)
    then have "2 \<le> \<lceil>y\<rceil>" by linarith
    then have n: "0 < n" by (simp add: n_def)
    have b1: "1 \<le> bitlen n" using n bitlen_eq_zero_iff[of n] bitlen_nonneg[of n] by linarith
    from bitlen_bounds[OF n] have lo: "2 ^ nat (bitlen n - 1) \<le> n" and hi: "n < 2 ^ nat (bitlen n)"
      by simp_all
    have e: "expo x = - bitlen n" using False by (simp add: expo_def n_def y_def)
    have xy: "x = 1 / y" using assms by (simp add: y_def)
    have "y \<le> of_int (n + 1)" by (simp add: n_def)
    also have "\<dots> \<le> of_int (2 ^ nat (bitlen n))" using hi by (simp only: of_int_le_iff)
    finally have yhi: "y \<le> 2 ^ nat (bitlen n)" by simp
    have "(of_int (2 ^ nat (bitlen n - 1)) :: real) \<le> of_int n" using lo by (simp only: of_int_le_iff)
    then have "(2::real) ^ nat (bitlen n - 1) \<le> of_int n" by (simp only: of_int_power of_int_numeral)
    moreover have "of_int n < y" unfolding n_def by linarith
    ultimately have ylo: "2 ^ nat (bitlen n - 1) < y" by (rule le_less_trans)
    have p1: "(2::real) powi (- bitlen n) = 1 / 2 ^ nat (bitlen n)"
      using b1 by (simp add: power_int_def field_simps)
    have p2: "(2::real) powi (- bitlen n + 1) = 1 / 2 ^ nat (bitlen n - 1)"
      using b1 by (simp add: power_int_def field_simps nat_diff_distrib)
    have xx: "1 / y = x" by (simp add: y_def)
    have "1 / 2 ^ nat (bitlen n) \<le> 1 / y" using yhi y1 by (simp add: field_simps)
    then have A: "2 powi (expo x) \<le> x" unfolding e p1 xx .
    have "1 / y < 1 / 2 ^ nat (bitlen n - 1)" using ylo y1 by (simp add: field_simps)
    then have B: "x < 2 powi (expo x + 1)" unfolding e p2 xx .
    from A B show ?thesis ..
  qed
  then show "2 powi (expo x) \<le> x" and "x < 2 powi (expo x + 1)" by simp_all
qed


lemma binade_upper: "0 < x \<Longrightarrow> x < 2 powi (binade x + 1)"
proof -
  assume x: "0 < x"
  have "expo x + 1 \<le> binade x + 1" by (simp add: binade_def)
  then have "(2::real) powi (expo x + 1) \<le> 2 powi (binade x + 1)"
    by (intro power_int_increasing) simp_all
  with expo_bounds(2)[OF x] show ?thesis by linarith
qed

lemma binade_lower: "0 < x \<Longrightarrow> - 1022 < binade x \<Longrightarrow> 2 powi (binade x) \<le> x"
  using expo_bounds(1)[of x] by (simp add: binade_def max_def split: if_splits)

lemma binade_mono:
  assumes "0 < x" and "x \<le> y"
  shows "binade x \<le> binade y"
proof -
  have "expo x \<le> expo y"
  proof (rule ccontr)
    assume "\<not> expo x \<le> expo y"
    then have "expo y + 1 \<le> expo x" by simp
    then have "(2::real) powi (expo y + 1) \<le> 2 powi (expo x)"
      by (intro power_int_increasing) simp_all
    moreover have "2 powi (expo x) \<le> x" using assms(1) by (rule expo_bounds(1))
    moreover have "y < 2 powi (expo y + 1)" using assms by (intro expo_bounds(2)) simp
    ultimately show False using assms(2) by linarith
  qed
  then show ?thesis by (simp add: binade_def max_def)
qed

lemma powi_split: "(2::real) powi (e + 1) = 2 powi (e - 52) * 2 ^ 53"
proof -
  have "e + 1 = (e - 52) + 53" by simp
  then have "(2::real) powi (e + 1) = 2 powi ((e - 52) + 53)" by (rule arg_cong)
  also have "\<dots> = 2 powi (e - 52) * 2 powi 53" by (subst power_int_add) simp_all
  finally show ?thesis by simp
qed

lemma powi_split52: "(2::real) powi e = 2 powi (e - 52) * 2 ^ 52"
proof -
  have "e = (e - 52) + 52" by simp
  then have "(2::real) powi e = 2 powi ((e - 52) + 52)" by (rule arg_cong)
  also have "\<dots> = 2 powi (e - 52) * 2 powi 52" by (subst power_int_add) simp_all
  finally show ?thesis by simp
qed

lemma mant_bounds:
  assumes "0 < x"
  shows "0 \<le> mant x" and "mant x \<le> 2 ^ 53" and "- 1022 < binade x \<Longrightarrow> 2 ^ 52 \<le> mant x"
proof -
  define u where "u = (2::real) powi (binade x - 52)"
  have u: "0 < u" by (simp add: u_def)
  have "0 \<le> x / u" using assms u by simp
  then have "rne 0 \<le> rne (x / u)" by (rule rne_mono)
  then show "0 \<le> mant x" using rne_of_int[of 0] by (simp add: mant_def u_def)
  have "x < u * 2 ^ 53" using binade_upper[OF assms] by (simp add: powi_split[of "binade x"] u_def)
  then have "x / u \<le> 2 ^ 53" using u by (simp add: field_simps)
  then have "rne (x / u) \<le> rne (of_int (2 ^ 53))" by (intro rne_mono) simp
  then show "mant x \<le> 2 ^ 53" by (simp only: rne_of_int mant_def u_def)
  assume "- 1022 < binade x"
  then have "u * 2 ^ 52 \<le> x" using binade_lower[OF assms] by (simp add: powi_split52[of "binade x"] u_def)
  then have "2 ^ 52 \<le> x / u" using u by (simp add: field_simps)
  then have "rne (of_int (2 ^ 52)) \<le> rne (x / u)" by (intro rne_mono) simp
  then show "2 ^ 52 \<le> mant x" by (simp only: rne_of_int mant_def u_def)
qed


lemma rval_bounds:
  assumes "0 < x"
  shows "0 \<le> real_of_int (mant x) * 2 powi (binade x - 52)"
    and "real_of_int (mant x) * 2 powi (binade x - 52) \<le> 2 powi (binade x + 1)"
    and "- 1022 < binade x \<Longrightarrow> 2 powi (binade x) \<le> real_of_int (mant x) * 2 powi (binade x - 52)"
proof -
  define u where "u = (2::real) powi (binade x - 52)"
  have u: "0 < u" by (simp add: u_def)
  have "(0::real) \<le> of_int (mant x)" using mant_bounds(1)[OF assms] by simp
  then show "0 \<le> real_of_int (mant x) * 2 powi (binade x - 52)" by simp
  have "(of_int (mant x) :: real) \<le> of_int (2 ^ 53)"
    using mant_bounds(2)[OF assms] by (simp only: of_int_le_iff)
  then have "of_int (mant x) * u \<le> 2 ^ 53 * u" using u by simp
  then show "real_of_int (mant x) * 2 powi (binade x - 52) \<le> 2 powi (binade x + 1)"
    by (simp add: powi_split[of "binade x"] u_def mult.commute)
  assume "- 1022 < binade x"
  then have "(of_int (2 ^ 52) :: real) \<le> of_int (mant x)"
    using mant_bounds(3)[OF assms] by (simp only: of_int_le_iff)
  then have "2 ^ 52 * u \<le> of_int (mant x) * u" using u by simp
  then show "2 powi (binade x) \<le> real_of_int (mant x) * 2 powi (binade x - 52)"
    by (simp add: powi_split52[of "binade x"] u_def mult.commute)
qed

lemma binade_ge: "- 1022 \<le> binade x"
  by (simp add: binade_def)

lemma rval_mono:
  assumes "0 < x" and "x \<le> y"
  shows "real_of_int (mant x) * 2 powi (binade x - 52) \<le> real_of_int (mant y) * 2 powi (binade y - 52)"
proof (cases "binade x = binade y")
  case True
  define u where "u = (2::real) powi (binade y - 52)"
  have u: "0 < u" by (simp add: u_def)
  have "x / u \<le> y / u" using assms(2) u by (simp add: divide_right_mono)
  then have "mant x \<le> mant y" unfolding mant_def True u_def by (rule rne_mono)
  then have "(of_int (mant x) :: real) \<le> of_int (mant y)" by simp
  then show ?thesis unfolding True using u by (simp add: u_def)
next
  case False
  have y: "0 < y" using assms by simp
  have lt: "binade x + 1 \<le> binade y" using False binade_mono[OF assms] by simp
  then have un: "- 1022 < binade y" using binade_ge[of x] by linarith
  have "real_of_int (mant x) * 2 powi (binade x - 52) \<le> 2 powi (binade x + 1)"
    using assms(1) by (rule rval_bounds(2))
  also have "\<dots> \<le> 2 powi (binade y)" using lt by (intro power_int_increasing) simp_all
  also have "\<dots> \<le> real_of_int (mant y) * 2 powi (binade y - 52)"
    using rval_bounds(3)[OF y un] .
  finally show ?thesis .
qed

lemma round_pos_alt:
  assumes "0 < x"
  shows "round_pos x = (if 2 powi 1024 \<le> real_of_int (mant x) * 2 powi (binade x - 52) then PInf
                        else Fin (real_of_int (mant x) * 2 powi (binade x - 52)))"
proof -
  consider "1024 \<le> binade x" | "binade x = 1023" | "binade x \<le> 1022" by linarith
  then show ?thesis
  proof cases
    case 1
    then have "(2::real) powi 1024 \<le> 2 powi (binade x)" by (intro power_int_increasing) simp_all
    also have "\<dots> \<le> real_of_int (mant x) * 2 powi (binade x - 52)"
      using 1 by (intro rval_bounds(3)[OF assms]) simp
    finally show ?thesis using 1 by (simp add: round_pos_def)
  next
    case 2
    have u: "(0::real) < 2 powi 971" by simp
    have p: "(2::real) powi 1024 = 2 powi 971 * 2 ^ 53" using powi_split[of 1023] by simp
    have "(2 powi 1024 \<le> of_int (mant x) * (2::real) powi 971) \<longleftrightarrow> (2 ^ 53 \<le> (of_int (mant x) :: real))"
      unfolding p using u by (simp add: mult.commute)
    also have "\<dots> \<longleftrightarrow> (of_int (2 ^ 53) \<le> (of_int (mant x) :: real))" by simp
    also have "\<dots> \<longleftrightarrow> 2 ^ 53 \<le> mant x" by (simp only: of_int_le_iff)
    also have "\<dots> \<longleftrightarrow> mant x = 2 ^ 53" using mant_bounds(2)[OF assms] by linarith
    finally show ?thesis using 2 by (simp add: round_pos_def)
  next
    case 3
    have "real_of_int (mant x) * 2 powi (binade x - 52) \<le> 2 powi (binade x + 1)"
      using assms by (rule rval_bounds(2))
    also have "\<dots> \<le> 2 powi 1023" using 3 by (intro power_int_increasing) simp_all
    also have "\<dots> < 2 powi 1024" by (intro power_int_strict_increasing) simp_all
    finally show ?thesis using 3 by (simp add: round_pos_def)
  qed
qed

lemma round_pos_mono:
  assumes "0 < x" and "x \<le> y"
  shows "f64_le (round_pos x) (round_pos y)"
proof -
  have y: "0 < y" using assms by simp
  show ?thesis
    unfolding round_pos_alt[OF assms(1)] round_pos_alt[OF y]
    using rval_mono[OF assms] by (auto simp: f64_le_def)
qed

lemma round_pos_nonneg: "0 < x \<Longrightarrow> f64_le (Fin 0) (round_pos x)"
  unfolding round_pos_alt using rval_bounds(1)[of x] by (auto simp: f64_le_def)

lemma f64_le_neg: "f64_le a b \<Longrightarrow> f64_le (f64_neg b) (f64_neg a)"
  by (cases a; cases b) (auto simp: f64_le_def)

lemma f64_le_trans: "f64_le a b \<Longrightarrow> f64_le b c \<Longrightarrow> f64_le a c"
  by (cases a; cases b; cases c) (auto simp: f64_le_def)

lemma round64_mono:
  assumes "x \<le> y"
  shows "f64_le (round64 x) (round64 y)"
proof -
  consider "0 < x" | "x = 0" "y = 0" | "x = 0" "0 < y" | "x < 0" "y < 0" | "x < 0" "y = 0" | "x < 0" "0 < y"
    using assms by linarith
  then show ?thesis
  proof cases
    case 1
    then show ?thesis using assms round_pos_mono[of x y] by (simp add: round64_def)
  next
    case 2
    then show ?thesis by (simp add: round64_def f64_le_def)
  next
    case 3
    then show ?thesis using round_pos_nonneg[of y] by (simp add: round64_def)
  next
    case 4
    then have "f64_le (round_pos (- y)) (round_pos (- x))" using assms by (intro round_pos_mono) simp_all
    then show ?thesis using 4 by (simp add: round64_def f64_le_neg)
  next
    case 5
    have "f64_le (f64_neg (round_pos (- x))) (f64_neg (Fin 0))"
      using 5 by (intro f64_le_neg round_pos_nonneg) simp
    then show ?thesis using 5 by (simp add: round64_def)
  next
    case 6
    have "f64_le (f64_neg (round_pos (- x))) (f64_neg (Fin 0))"
      using 6 by (intro f64_le_neg round_pos_nonneg) simp
    moreover have "f64_le (Fin 0) (round_pos y)" using 6 by (intro round_pos_nonneg)
    ultimately have "f64_le (f64_neg (round_pos (- x))) (round_pos y)"
      using f64_le_trans[of "f64_neg (round_pos (- x))" "Fin 0" "round_pos y"] by simp
    then show ?thesis using 6 by (simp add: round64_def)
  qed
qed

lemma round64_lt_D: "f64_lt (round64 x) (round64 y) \<Longrightarrow> x < y"
proof (rule ccontr)
  assume lt: "f64_lt (round64 x) (round64 y)" and "\<not> x < y"
  then have "f64_le (round64 y) (round64 x)" by (intro round64_mono) simp
  with lt show False by (cases "round64 x"; cases "round64 y") (auto simp: f64_le_def)
qed

lemma round64_between:
  assumes "round64 lo = Fin lo'" and "round64 hi = Fin hi'" and "lo \<le> x" and "x \<le> hi"
  shows "\<exists>r. round64 x = Fin r \<and> lo' \<le> r \<and> r \<le> hi'"
  using round64_mono[OF assms(3)] round64_mono[OF assms(4)] assms(1,2)
  by (cases "round64 x") (auto simp: f64_le_def)

lemma round_pos_exact:
  assumes "binade x \<le> 1022" and "x / 2 powi (binade x - 52) = of_int m"
  shows "round_pos x = Fin x"
proof -
  have u: "(2::real) powi (binade x - 52) \<noteq> 0" by simp
  have "mant x = m" unfolding mant_def assms(2) by (rule rne_of_int)
  moreover have "of_int m * 2 powi (binade x - 52) = x"
    using assms(2) u by (simp add: field_simps)
  ultimately show ?thesis using assms(1) by (simp add: round_pos_def)
qed

lemma round_pos_int:
  assumes "0 < n" and "n \<le> 2 ^ 53"
  shows "round_pos (of_int n) = Fin (of_int n)"
proof -
  define x :: real where "x = of_int n"
  have x: "0 < x" "1 \<le> x" "x \<le> 2 ^ 53" using assms by (simp_all add: x_def)
  have e0: "0 \<le> expo x"
  proof (rule ccontr)
    assume "\<not> 0 \<le> expo x"
    then have "expo x + 1 \<le> 0" by simp
    then have "(2::real) powi (expo x + 1) \<le> 2 powi 0" by (intro power_int_increasing) simp_all
    moreover have "x < 2 powi (expo x + 1)" using x(1) by (rule expo_bounds(2))
    ultimately show False using x(2) by simp
  qed
  have e53: "expo x \<le> 53"
  proof (rule ccontr)
    assume "\<not> expo x \<le> 53"
    then have "54 \<le> expo x" by simp
    then have "(2::real) powi 54 \<le> 2 powi (expo x)" by (intro power_int_increasing) simp_all
    moreover have "2 powi (expo x) \<le> x" using x(1) by (rule expo_bounds(1))
    ultimately show False using x(3) by simp
  qed
  have b: "binade x = expo x" using e0 by (simp add: binade_def)
  show ?thesis
  proof (cases "expo x = 53")
    case True
    have "2 ^ 53 \<le> x" using expo_bounds(1)[OF x(1)] True by simp
    with x(3) have "x = 2 ^ 53" by simp
    then have ex: "x / 2 powi (binade x - 52) = of_int (2 ^ 52)" unfolding b True by simp
    have le': "binade x \<le> 1022" using b True by simp
    show ?thesis unfolding x_def[symmetric] by (rule round_pos_exact[OF le' ex])
  next
    case False
    then have le: "expo x \<le> 52" using e53 by simp
    have "(2::real) powi (expo x - 52) = 1 / 2 ^ nat (52 - expo x)"
      using le by (simp add: power_int_def field_simps)
    then have "x / 2 powi (binade x - 52) = x * 2 ^ nat (52 - expo x)"
      unfolding b by simp
    also have "\<dots> = of_int (n * 2 ^ nat (52 - expo x))" by (simp add: x_def)
    finally have ex: "x / 2 powi (binade x - 52) = of_int (n * 2 ^ nat (52 - expo x))" .
    have le': "binade x \<le> 1022" using b le by simp
    show ?thesis unfolding x_def[symmetric] by (rule round_pos_exact[OF le' ex])
  qed
qed

lemma round64_int: "\<bar>n\<bar> \<le> 2 ^ 53 \<Longrightarrow> round64 (of_int n) = Fin (of_int n)"
  using round_pos_int[of n] round_pos_int[of "- n"] by (auto simp: round64_def)

text \<open>
  Integers up to \<open>2 ^ 53\<close> in magnitude are float64 values; evaluation rounds them at once.
\<close>

lemma round64_code [code]:
  "round64 x = (if x = of_int \<lfloor>x\<rfloor> \<and> \<bar>x\<bar> \<le> 9007199254740992 then Fin x
                else if 0 < x then round_pos x else f64_neg (round_pos (- x)))"
proof (cases "x = of_int \<lfloor>x\<rfloor> \<and> \<bar>x\<bar> \<le> 9007199254740992")
  case True
  then have "\<bar>real_of_int \<lfloor>x\<rfloor>\<bar> \<le> 9007199254740992" by simp
  then have "\<bar>\<lfloor>x\<rfloor>\<bar> \<le> 9007199254740992" by linarith
  then have "\<bar>\<lfloor>x\<rfloor>\<bar> \<le> 2 ^ 53" by simp
  then have "round64 (of_int \<lfloor>x\<rfloor>) = Fin (of_int \<lfloor>x\<rfloor>)" by (rule round64_int)
  with True show ?thesis by simp
next
  case False
  then have "x \<noteq> 0" by auto
  with False show ?thesis by (auto simp: round64_def)
qed


section \<open>Two's complement arithmetic\<close>

lemma i64_signed: "i64 x = signed_take_bit 63 x"
  by (simp add: i64_def signed_take_bit_eq_take_bit_shift take_bit_eq_mod)

lemma i64_id: "- (2 ^ 63) \<le> x \<Longrightarrow> x < 2 ^ 63 \<Longrightarrow> i64 x = x"
  by (simp add: i64_def)

lemma i64_range: "- (2 ^ 63) \<le> i64 x" "i64 x < 2 ^ 63"
  by (simp_all add: i64_def)

lemma i64_idem [simp]: "i64 (i64 x) = i64 x"
  by (simp add: i64_signed)

lemma i64_add_left [simp]: "i64 (i64 a + b) = i64 (a + b)"
  using signed_take_bit_add[of 63 a b] signed_take_bit_add[of 63 "signed_take_bit 63 a" b]
  by (simp add: i64_signed)

lemma i64_add_right [simp]: "i64 (a + i64 b) = i64 (a + b)"
  using i64_add_left[of b a] by (simp add: add.commute)

lemma i64_diff_left [simp]: "i64 (i64 a - b) = i64 (a - b)"
  using i64_add_left[of a "- b"] by simp

lemma i64_mult_left [simp]: "i64 (i64 a * b) = i64 (a * b)"
  using signed_take_bit_mult[of 63 a b] signed_take_bit_mult[of 63 "signed_take_bit 63 a" b]
  by (simp add: i64_signed)

lemma i64_mult_right [simp]: "i64 (a * i64 b) = i64 (a * b)"
  using i64_mult_left[of b a] by (simp add: mult.commute)

lemma i64_zero [simp]: "i64 0 = 0"
  by (simp add: i64_def)

lemma i64_sum_list: "i64 (a + sum_list (map (\<lambda>x. i64 (g x)) xs)) = i64 (a + sum_list (map g xs))"
proof (induction xs arbitrary: a)
  case Nil
  then show ?case by simp
next
  case (Cons x xs)
  have "i64 (a + (i64 (g x) + sum_list (map (\<lambda>x. i64 (g x)) xs)))
        = i64 ((a + i64 (g x)) + sum_list (map (\<lambda>x. i64 (g x)) xs))" by (simp add: add.assoc)
  also have "\<dots> = i64 ((a + i64 (g x)) + sum_list (map g xs))" by (rule Cons.IH)
  also have "\<dots> = i64 (i64 (g x) + (a + sum_list (map g xs)))" by (simp add: ac_simps)
  also have "\<dots> = i64 (g x + (a + sum_list (map g xs)))" by (rule i64_add_left)
  finally show ?case by (simp add: ac_simps)
qed

section \<open>Basic facts\<close>

lemma nth_opt_Some: "nth_opt xs i = Some x \<Longrightarrow> 0 \<le> i \<and> i < int (length xs) \<and> x = xs ! nat i"
  by (auto simp: nth_opt_def split: if_splits)

lemma lookup_all_Some: "lookup_all xs is = Some ys \<Longrightarrow> ys = map (\<lambda>i. xs ! nat i) is \<and> (\<forall>i \<in> set is. nth_opt xs i = Some (xs ! nat i))"
  by (induction "is" arbitrary: ys) (auto split: option.splits dest: nth_opt_Some)

lemma sum_opt_Some:
  "(\<forall>x \<in> set xs. f x = Some (g x)) \<Longrightarrow> sum_opt f xs (i64 a) = Some (i64 (a + sum_list (map g xs)))"
proof (induction xs arbitrary: a)
  case Nil
  then show ?case by simp
next
  case (Cons x xs)
  then have "sum_opt f (x # xs) (i64 a) = sum_opt f xs (i64 (a + g x))"
    by (simp add: add64_def)
  also have "\<dots> = Some (i64 (a + g x + sum_list (map g xs)))" using Cons by simp
  finally show ?case by (simp add: add.assoc)
qed

lemma first_pos_None: "first_pos xs t = None \<longleftrightarrow> t \<notin> set xs"
  by (induction xs) (auto split: option.splits)

lemma first_pos_zero: "first_pos xs t = Some 0 \<longleftrightarrow> xs \<noteq> [] \<and> xs ! 0 = t"
  by (cases xs) (auto split: option.splits)

lemma InputTileSize_spec:
  "lookup_all (Ops p) ops = Some os \<Longrightarrow> InputTileSize p ops t w h k = Some (i64 (tile_size_spec p ops t w h k))"
proof (induction ops arbitrary: os)
  case Nil
  then show ?case by (simp add: tile_size_spec_def mul64_def)
next
  case (Cons i ops)
  then obtain x ys where x: "nth_opt (Ops p) i = Some x" and ys: "lookup_all (Ops p) ops = Some ys"
    by (auto split: option.splits)
  have xi: "x = Ops p ! nat i" using x by (auto dest: nth_opt_Some)
  show ?case
  proof (cases "first_pos (Inputs x) t")
    case None
    then have "t \<notin> set (Inputs x)" by (simp add: first_pos_None)
    with None x xi Cons.IH[OF ys] show ?thesis
      by (simp add: tile_size_spec_def)
  next
    case (Some pos)
    then have mem: "t \<in> set (Inputs x)" using first_pos_None[of "Inputs x" t] by auto
    have "pos = 0 \<longleftrightarrow> Inputs x ! 0 = t"
      using Some mem first_pos_zero[of "Inputs x" t] by auto
    with Some x xi mem show ?thesis
      by (simp add: tile_size_spec_def mul64_def)
  qed
qed

lemma FullTensorSize_Some: "nth_opt (Tensors p) t \<noteq> None \<Longrightarrow> FullTensorSize p t = Some (i64 (full_size p t))"
  by (auto simp: FullTensorSize_def full_size_def mul64_def dest: nth_opt_Some split: option.splits)

section \<open>The working set\<close>

text \<open>
  Claim C6, amended. When the op indices are in range and the resident tensors exist,
  \<open>ComputeWorkingSet\<close> returns the sum the specification describes reduced to a 64-bit
  two's complement integer: for each boundary input the full tensor size if it is resident
  and its tile size by role otherwise, \<open>w * h\<close> for each boundary output, and the full size
  of each resident tensor that is neither a boundary input nor produced by the op set. It
  returns the sum itself whenever the sum lies between \<open>- 2 ^ 63\<close> and \<open>2 ^ 63 - 1\<close>.
\<close>

theorem ComputeWorkingSet_spec:
  assumes ops: "lookup_all (Ops p) ops = Some os"
      and R: "\<forall>t \<in> set R. nth_opt (Tensors p) t \<noteq> None"
  shows "ComputeWorkingSet p ops (w, h, k) R = Some (i64 (working_set_spec p ops (w, h, k) (set R)))
       \<and> (- (2 ^ 63) \<le> working_set_spec p ops (w, h, k) (set R)
            \<and> working_set_spec p ops (w, h, k) (set R) < 2 ^ 63
          \<longrightarrow> ComputeWorkingSet p ops (w, h, k) R = Some (working_set_spec p ops (w, h, k) (set R)))"
proof -
  define produced where "produced = remdups (concat (map Outputs os))"
  define consumed where "consumed = remdups (concat (map Inputs os))"
  define bi where "bi = filter (\<lambda>t. t \<notin> set produced) consumed"
  define bo where "bo = filter (\<lambda>t. t \<notin> set (filter (\<lambda>t. t \<in> set consumed) produced)) produced"
  have os: "os = map (\<lambda>i. Ops p ! nat i) ops" using lookup_all_Some[OF ops] by simp
  have b: "GetSubgraphBoundary p ops = Some \<lparr> BoundaryInputs = bi, BoundaryOutputs = bo,
        Ephemeral = filter (\<lambda>t. t \<in> set consumed) produced, AllConsumed = consumed, AllProduced = produced \<rparr>"
    unfolding GetSubgraphBoundary_def Let_def bi_def bo_def produced_def consumed_def ops
    by (simp only: option.case)
  have sp: "set produced = (\<Union>op \<in> set os. set (Outputs op))" by (auto simp: produced_def)
  have sc: "set consumed = (\<Union>op \<in> set os. set (Inputs op))" by (auto simp: consumed_def)
  have sbi: "set bi = set consumed - set produced" and dbi: "distinct bi"
    by (auto simp: bi_def consumed_def)
  have sbo: "set bo = set produced - set consumed" and dbo: "distinct bo"
    by (auto simp: bo_def produced_def)
  let ?f1 = "\<lambda>t. if t \<in> set R then full_size p t else tile_size_spec p ops t w h k"
  let ?f3 = "\<lambda>t. if t \<notin> set bi \<and> t \<notin> set produced then full_size p t else 0"
  define A where "A = sum_list (map ?f1 bi)"
  define B where "B = sum_list (map (\<lambda>t. w * h) bo)"
  define C where "C = sum_list (map ?f3 (remdups R))"
  have "sum_opt (\<lambda>tIdx. if tIdx \<in> set R then FullTensorSize p tIdx else InputTileSize p ops tIdx w h k) bi (i64 0)
        = Some (i64 (0 + sum_list (map (\<lambda>t. i64 (?f1 t)) bi)))"
    by (rule sum_opt_Some) (use R ops in \<open>auto simp: FullTensorSize_Some InputTileSize_spec\<close>)
  then have s1: "sum_opt (\<lambda>tIdx. if tIdx \<in> set R then FullTensorSize p tIdx else InputTileSize p ops tIdx w h k) bi 0
        = Some (i64 A)"
    unfolding i64_sum_list A_def by simp
  have "sum_opt (\<lambda>tIdx. Some (mul64 w h)) bo (i64 A) = Some (i64 (A + sum_list (map (\<lambda>t. i64 (w * h)) bo)))"
    by (rule sum_opt_Some) (simp add: mul64_def)
  then have s2: "sum_opt (\<lambda>tIdx. Some (mul64 w h)) bo (i64 A) = Some (i64 (A + B))"
    unfolding i64_sum_list B_def .
  have "sum_opt (\<lambda>tIdx. if tIdx \<notin> set bi \<and> tIdx \<notin> set produced then FullTensorSize p tIdx else Some 0)
          (remdups R) (i64 (A + B))
        = Some (i64 (A + B + sum_list (map (\<lambda>t. i64 (?f3 t)) (remdups R))))"
    by (rule sum_opt_Some) (use R in \<open>auto simp: FullTensorSize_Some\<close>)
  then have s3: "sum_opt (\<lambda>tIdx. if tIdx \<notin> set bi \<and> tIdx \<notin> set produced then FullTensorSize p tIdx else Some 0)
          (remdups R) (i64 (A + B)) = Some (i64 (A + B + C))"
    unfolding i64_sum_list C_def .
  have e1: "A = sum ?f1 (set bi)"
    unfolding A_def using dbi by (simp add: sum_list_distinct_conv_sum_set)
  have e2: "B = (\<Sum>t \<in> set bo. w * h)"
    unfolding B_def using dbo by (simp add: sum_list_distinct_conv_sum_set)
  have e3: "C = (\<Sum>t \<in> {t \<in> set R. t \<notin> set bi \<and> t \<notin> set produced}. full_size p t)"
  proof -
    have "C = sum ?f3 (set R)"
      unfolding C_def by (simp add: sum_list_distinct_conv_sum_set)
    also have "\<dots> = (\<Sum>t \<in> {t \<in> set R. t \<notin> set bi \<and> t \<notin> set produced}. full_size p t)"
      by (rule sum.inter_filter[symmetric]) simp
    finally show ?thesis .
  qed
  have cw: "ComputeWorkingSet p ops (w, h, k) R = Some (i64 (A + B + C))"
    unfolding ComputeWorkingSet_def b
    by (simp only: prod.case option.case SubgraphBoundary.simps s1 s2 s3)
  have prod_eq: "(\<Union>op \<in> set (map (\<lambda>i. Ops p ! nat i) ops). set (Outputs op)) = set produced"
    and cons_eq: "(\<Union>op \<in> set (map (\<lambda>i. Ops p ! nat i) ops). set (Inputs op)) = set consumed"
    using sp sc os by simp_all
  have spec: "working_set_spec p ops (w, h, k) (set R) = A + B + C"
    unfolding working_set_spec_def Let_def prod.case prod_eq cons_eq sbi[symmetric] sbo[symmetric] e1 e2 e3 ..
  show ?thesis
    unfolding cw spec by (simp add: i64_id)
qed

text \<open>
  On \<open>chainProblem\<close> with both ops, granularity (2, 2, 2) and tensor 0 resident: the resident
  LHS counts in full (16), the RHS as a tile (4), the output as a tile (4).
\<close>

theorem ComputeWorkingSet_spec_witness:
  "lookup_all (Ops chainProblem) [0, 1] = Some (Ops chainProblem)
   \<and> nth_opt (Tensors chainProblem) 0 = Some \<lparr>Width = 4, Height = 4\<rparr>
   \<and> working_set_spec chainProblem [0, 1] (2, 2, 2) (set [0]) = 24
   \<and> ComputeWorkingSet chainProblem [0, 1] (2, 2, 2) [0]
       = Some (working_set_spec chainProblem [0, 1] (2, 2, 2) (set [0]))
   \<and> ComputeWorkingSet chainProblem [0, 1] (2, 2, 2) [0] = Some 24"
proof -
  have a: "lookup_all (Ops chainProblem) [0, 1] = Some (Ops chainProblem)" by code_simp
  have b: "nth_opt (Tensors chainProblem) 0 = Some \<lparr>Width = 4, Height = 4\<rparr>" by code_simp
  then have b': "\<forall>t \<in> set [0 :: int]. nth_opt (Tensors chainProblem) t \<noteq> None" by simp
  have c: "ComputeWorkingSet chainProblem [0, 1] (2, 2, 2) [0] = Some 24" by code_simp
  have d: "working_set_spec chainProblem [0, 1] (2, 2, 2) (set [0]) = 24" by code_simp
  from ComputeWorkingSet_spec[OF a b', of 2 2 2] a b c d show ?thesis by simp
qed

text \<open>
  On \<open>tinyProblem\<close> at granularity (3037000500, 3037000500, 1) the three tiles of the
  specification's sum have 9223372037000250000 elements each, more than \<open>2 ^ 63\<close>: the sum
  is 27670116111000750000, the code returns - 9223372036418353232.
\<close>

theorem ComputeWorkingSet_counterexample:
  "working_set_spec tinyProblem [0] (3037000500, 3037000500, 1) (set []) = 27670116111000750000
   \<and> ComputeWorkingSet tinyProblem [0] (3037000500, 3037000500, 1) [] = Some (- 9223372036418353232)"
  by code_simp

section \<open>Errors and traversal orders of the detailed latency\<close>

text \<open>
  Claim C10. \<open>EvaluateSubgraphDetailed\<close> returns an error exactly when the op list is
  empty or a granularity component is not positive. A traversal order whose length differs
  from the number of spatial tiles is replaced by the row-major order \<open>0 \<dots> nSpatial - 1\<close>:
  the call gives the same result as the call with that order.
\<close>

theorem EvaluateSubgraphDetailed_errors_and_traversal:
  "((\<exists>e. EvaluateSubgraphDetailed p ops (w, h, k) retain trav res = Some (Inl e))
       \<longleftrightarrow> (ops = [] \<or> w \<le> 0 \<or> h \<le> 0 \<or> k \<le> 0))
   \<and> (spatialTiles p ops w h = Some n \<longrightarrow> int (length trav) \<noteq> n \<longrightarrow>
        EvaluateSubgraphDetailed p ops (w, h, k) retain trav res
          = EvaluateSubgraphDetailed p ops (w, h, k) retain (map int [0..<nat n]) res)"
proof (intro conjI impI)
  show "(\<exists>e. EvaluateSubgraphDetailed p ops (w, h, k) retain trav res = Some (Inl e))
       \<longleftrightarrow> (ops = [] \<or> w \<le> 0 \<or> h \<le> 0 \<or> k \<le> 0)"
    by (auto simp: EvaluateSubgraphDetailed_def)
next
  assume "spatialTiles p ops w h = Some n" and "int (length trav) \<noteq> n"
  then show "EvaluateSubgraphDetailed p ops (w, h, k) retain trav res
          = EvaluateSubgraphDetailed p ops (w, h, k) retain (map int [0..<nat n]) res"
    by (auto simp: EvaluateSubgraphDetailed_def esd_body_def spatialTiles_def Let_def
        split: option.splits Option.bind_splits)
qed

text \<open>
  On \<open>chainProblem\<close> with tiles of 2 by 2 there are four spatial tiles. The three-element
  order \<open>[0, 1, 3]\<close> is priced as row-major (74), not as the snake order it is a prefix
  of (71).
\<close>

theorem EvaluateSubgraphDetailed_errors_and_traversal_witness:
  "spatialTiles chainProblem [0, 1] 2 2 = Some 4
   \<and> int (length [0, 1, 3 :: int]) \<noteq> 4
   \<and> EvaluateSubgraphDetailed chainProblem [0, 1] (2, 2, 2) [] [0, 1, 3] [] = Some (Inr (Fin 74))
   \<and> EvaluateSubgraphDetailed chainProblem [0, 1] (2, 2, 2) [] [0, 1, 2, 3] [] = Some (Inr (Fin 74))
   \<and> EvaluateSubgraphDetailed chainProblem [0, 1] (2, 2, 2) [] [0, 1, 3, 2] [] = Some (Inr (Fin 71))"
proof -
  have a: "spatialTiles chainProblem [0, 1] 2 2 = Some 4" by code_simp
  have b: "int (length [0, 1, 3 :: int]) \<noteq> 4" by simp
  have c: "EvaluateSubgraphDetailed chainProblem [0, 1] (2, 2, 2) [] [0, 1, 3] [] = Some (Inr (Fin 74))"
    by code_simp
  have d: "EvaluateSubgraphDetailed chainProblem [0, 1] (2, 2, 2) [] [0, 1, 3, 2] [] = Some (Inr (Fin 71))"
    by code_simp
  have e: "map int [0..<nat 4] = [0, 1, 2, 3]" by code_simp
  from EvaluateSubgraphDetailed_errors_and_traversal[of chainProblem "[0, 1]" 2 2 2 "[]" "[0, 1, 3]" "[]" 4]
  have "EvaluateSubgraphDetailed chainProblem [0, 1] (2, 2, 2) [] [0, 1, 3] []
          = EvaluateSubgraphDetailed chainProblem [0, 1] (2, 2, 2) [] (map int [0..<nat 4]) []"
    using a b by blast
  with a b c d e show ?thesis by simp
qed

section \<open>The smallest granularity\<close>

lemma sum_opt_None_iff: "sum_opt f xs acc = None \<longleftrightarrow> (\<exists>x \<in> set xs. f x = None)"
  by (induction xs arbitrary: acc) (auto split: option.splits)

lemma InputTileSize_None_indep:
  "InputTileSize p ops t w h k = None \<longleftrightarrow> InputTileSize p ops t w' h' k' = None"
  by (induction ops) (auto split: option.splits)

lemma ComputeWorkingSet_None:
  assumes "GetSubgraphBoundary p ops = Some b"
  shows "ComputeWorkingSet p ops (w, h, k) R = None \<longleftrightarrow>
     (\<exists>t \<in> set (BoundaryInputs b).
         (if t \<in> set R then FullTensorSize p t else InputTileSize p ops t w h k) = None)
     \<or> (\<exists>t \<in> set R. t \<notin> set (BoundaryInputs b) \<and> t \<notin> set (AllProduced b) \<and> FullTensorSize p t = None)"
proof (cases "sum_opt (\<lambda>tIdx. if tIdx \<in> set R then FullTensorSize p tIdx else InputTileSize p ops tIdx w h k)
                 (BoundaryInputs b) 0")
  case None
  then have "\<exists>t \<in> set (BoundaryInputs b).
         (if t \<in> set R then FullTensorSize p t else InputTileSize p ops t w h k) = None"
    unfolding sum_opt_None_iff .
  moreover have "ComputeWorkingSet p ops (w, h, k) R = None"
    using assms None by (simp add: ComputeWorkingSet_def)
  ultimately show ?thesis by blast
next
  case (Some ws1)
  then have n1: "\<not> (\<exists>t \<in> set (BoundaryInputs b).
         (if t \<in> set R then FullTensorSize p t else InputTileSize p ops t w h k) = None)"
    using sum_opt_None_iff[of "\<lambda>tIdx. if tIdx \<in> set R then FullTensorSize p tIdx else InputTileSize p ops tIdx w h k"
        "BoundaryInputs b" 0] by simp
  obtain ws2 where ws2: "sum_opt (\<lambda>tIdx. Some (mul64 w h)) (BoundaryOutputs b) ws1 = Some ws2"
    using sum_opt_None_iff[of "\<lambda>tIdx. Some (mul64 w h)" "BoundaryOutputs b" ws1] by auto
  have "ComputeWorkingSet p ops (w, h, k) R
      = sum_opt (\<lambda>tIdx. if tIdx \<notin> set (BoundaryInputs b) \<and> tIdx \<notin> set (AllProduced b)
                           then FullTensorSize p tIdx else Some 0) (remdups R) ws2"
    using assms Some ws2 by (simp add: ComputeWorkingSet_def)
  then have "ComputeWorkingSet p ops (w, h, k) R = None \<longleftrightarrow>
      (\<exists>t \<in> set (remdups R). (if t \<notin> set (BoundaryInputs b) \<and> t \<notin> set (AllProduced b)
                           then FullTensorSize p t else Some 0) = None)"
    by (simp only: sum_opt_None_iff)
  also have "\<dots> \<longleftrightarrow> (\<exists>t \<in> set R. t \<notin> set (BoundaryInputs b) \<and> t \<notin> set (AllProduced b) \<and> FullTensorSize p t = None)"
    by (auto split: if_splits)
  finally show ?thesis using n1 by blast
qed

lemma ComputeWorkingSet_None_indep:
  "ComputeWorkingSet p ops (w, h, k) R = None \<longleftrightarrow> ComputeWorkingSet p ops (w', h', k') R = None"
proof (cases "GetSubgraphBoundary p ops")
  case None
  then show ?thesis by (simp add: ComputeWorkingSet_def)
next
  case (Some b)
  have a: "(\<exists>t \<in> set (BoundaryInputs b). (if t \<in> set R then FullTensorSize p t else InputTileSize p ops t w h k) = None)
       \<longleftrightarrow> (\<exists>t \<in> set (BoundaryInputs b). (if t \<in> set R then FullTensorSize p t else InputTileSize p ops t w' h' k') = None)"
    using InputTileSize_None_indep[of p ops _ w h k w' h' k'] by (auto split: if_splits)
  show ?thesis
    unfolding ComputeWorkingSet_None[OF Some] a ..
qed

lemma lookup_all_None_iff: "lookup_all xs is = None \<longleftrightarrow> (\<exists>i \<in> set is. nth_opt xs i = None)"
  by (induction "is") (auto split: option.splits)

lemma HasMatMul_not_None: "lookup_all (Ops p) ops \<noteq> None \<Longrightarrow> HasMatMul p ops \<noteq> None"
  by (induction ops) (auto split: option.splits)

lemma ComputeWorkingSet_lookup: "ComputeWorkingSet p ops g R = Some ws \<Longrightarrow> lookup_all (Ops p) ops \<noteq> None"
  by (auto simp: ComputeWorkingSet_def GetSubgraphBoundary_def split: prod.splits option.splits)

lemma fsf_kloop_found:
  "fsf_kloop p ops R w h ks = Some (Some g) \<Longrightarrow>
   \<exists>ws. ComputeWorkingSet p ops g R = Some ws \<and> ws \<le> FastMemoryCapacity p"
  by (induction ks) (auto split: option.splits if_splits)

lemma fsf_hloop_found:
  "fsf_hloop p ops R w hs ks = Some (Some g) \<Longrightarrow>
   \<exists>ws. ComputeWorkingSet p ops g R = Some ws \<and> ws \<le> FastMemoryCapacity p"
  by (induction hs) (auto split: option.splits if_splits dest: fsf_kloop_found)

lemma fsf_wloop_found:
  "fsf_wloop p ops R ws hs ks = Some (Some g) \<Longrightarrow>
   \<exists>ws. ComputeWorkingSet p ops g R = Some ws \<and> ws \<le> FastMemoryCapacity p"
  by (induction ws) (auto split: option.splits if_splits dest: fsf_hloop_found)

lemma fsf_kloop_total:
  assumes "\<And>g. ComputeWorkingSet p ops g R \<noteq> None" and "HasMatMul p ops = Some hm"
  shows "fsf_kloop p ops R w h ks \<noteq> None"
  using assms by (induction ks) (auto split: option.splits)

lemma fsf_hloop_total:
  assumes "\<And>g. ComputeWorkingSet p ops g R \<noteq> None" and "HasMatMul p ops = Some hm"
  shows "fsf_hloop p ops R w hs ks \<noteq> None"
  using fsf_kloop_total[OF assms] by (induction hs) (auto split: option.splits)

lemma fsf_wloop_total:
  assumes "\<And>g. ComputeWorkingSet p ops g R \<noteq> None" and "HasMatMul p ops = Some hm"
  shows "fsf_wloop p ops R ws hs ks \<noteq> None"
  using fsf_hloop_total[OF assms] by (induction ws) (auto split: option.splits)

lemma sum_opt_const: "sum_opt (\<lambda>t. Some c) xs (i64 a) = Some (i64 (a + int (length xs) * c))"
proof (induction xs arbitrary: a)
  case Nil
  then show ?case by simp
next
  case (Cons x xs)
  have "sum_opt (\<lambda>t. Some c) (x # xs) (i64 a) = sum_opt (\<lambda>t. Some c) xs (i64 (a + c))"
    by (simp add: add64_def)
  also have "\<dots> = Some (i64 (a + c + int (length xs) * c))" by (rule Cons.IH)
  finally show ?case by (simp add: algebra_simps)
qed

lemma InputTileSize_unit: "InputTileSize p ops t 1 1 1 = Some v \<Longrightarrow> v = 1"
  by (induction ops) (auto simp: mul64_def i64_def split: option.splits if_splits)

lemma InputTileSize_total: "lookup_all (Ops p) ops = Some os \<Longrightarrow> \<exists>v. InputTileSize p ops t w h k = Some v"
  by (induction ops arbitrary: os) (auto split: option.splits)

text \<open>
  Claim C8, amended. With no resident tensors the working set at granularity (1, 1, 1) is the
  number of boundary inputs plus the number of boundary outputs (as a 64-bit integer), which
  need not be within the capacity. Whenever \<open>GetMaxK\<close> and the working set at (1, 1, 1) do
  not panic, the halving fallback returns a granularity, and either its working set fits in
  the capacity or it is (1, 1, 1); its working set fits whenever the one at (1, 1, 1) does.
\<close>

theorem smallest_granularity_feasibility:
  "(GetSubgraphBoundary p ops = Some b \<longrightarrow>
      ComputeWorkingSet p ops (1, 1, 1) []
        = Some (i64 (int (length (BoundaryInputs b)) + int (length (BoundaryOutputs b)))))
   \<and> (GetMaxK p ops = Some maxK \<longrightarrow> ComputeWorkingSet p ops (1, 1, 1) R = Some ws1 \<longrightarrow>
      (\<exists>g ws. findSmallestFeasible p ops R = Some g \<and> ComputeWorkingSet p ops g R = Some ws
          \<and> (ws \<le> FastMemoryCapacity p \<or> g = (1, 1, 1))
          \<and> (ws1 \<le> FastMemoryCapacity p \<longrightarrow> ws \<le> FastMemoryCapacity p)))"
proof (intro conjI impI)
  assume b: "GetSubgraphBoundary p ops = Some b"
  then obtain os where os: "lookup_all (Ops p) ops = Some os"
    by (auto simp: GetSubgraphBoundary_def split: option.splits)
  have "\<forall>t \<in> set (BoundaryInputs b). InputTileSize p ops t 1 1 1 = Some 1"
    using InputTileSize_total[OF os] InputTileSize_unit by metis
  then have "sum_opt (\<lambda>tIdx. if tIdx \<in> set [] then FullTensorSize p tIdx else InputTileSize p ops tIdx 1 1 1)
               (BoundaryInputs b) (i64 0) = Some (i64 (0 + sum_list (map (\<lambda>t. 1) (BoundaryInputs b))))"
    by (intro sum_opt_Some) simp
  then have s1: "sum_opt (\<lambda>tIdx. if tIdx \<in> set [] then FullTensorSize p tIdx else InputTileSize p ops tIdx 1 1 1)
               (BoundaryInputs b) 0 = Some (i64 (int (length (BoundaryInputs b))))"
    by (simp add: sum_list_triv)
  have m: "mul64 1 1 = 1" by (simp add: mul64_def i64_def)
  show "ComputeWorkingSet p ops (1, 1, 1) []
        = Some (i64 (int (length (BoundaryInputs b)) + int (length (BoundaryOutputs b))))"
    unfolding ComputeWorkingSet_def b prod.case option.case s1 m sum_opt_const by simp
next
  assume mk: "GetMaxK p ops = Some maxK"
    and ws1: "ComputeWorkingSet p ops (1, 1, 1) R = Some ws1"
  obtain nw nh where ng: "NativeGranularity p = (nw, nh)" by (cases "NativeGranularity p")
  have total: "ComputeWorkingSet p ops g R \<noteq> None" for g
    using ws1 ComputeWorkingSet_None_indep[of p ops 1 1 1 R "fst g" "fst (snd g)" "snd (snd g)"] by simp
  obtain hm where hm: "HasMatMul p ops = Some hm"
    using HasMatMul_not_None[OF ComputeWorkingSet_lookup[OF ws1]] by auto
  obtain r where r: "fsf_wloop p ops R (halvings nw) (halvings nh) (halvings maxK) = Some r"
    using fsf_wloop_total[OF total hm, of "halvings nw" "halvings nh" "halvings maxK"] by blast
  show "\<exists>g ws. findSmallestFeasible p ops R = Some g \<and> ComputeWorkingSet p ops g R = Some ws
          \<and> (ws \<le> FastMemoryCapacity p \<or> g = (1, 1, 1))
          \<and> (ws1 \<le> FastMemoryCapacity p \<longrightarrow> ws \<le> FastMemoryCapacity p)"
  proof (cases r)
    case (Some g)
    with r ng mk have "findSmallestFeasible p ops R = Some g" by (simp add: findSmallestFeasible_def)
    with fsf_wloop_found[of p ops R "halvings nw" "halvings nh" "halvings maxK" g] r Some
    show ?thesis by auto
  next
    case None
    with r ng mk have "findSmallestFeasible p ops R = Some (1, 1, 1)"
      by (simp add: findSmallestFeasible_def)
    with ws1 show ?thesis by simp
  qed
qed

text \<open>
  On \<open>chainProblem\<close> the count at (1, 1, 1) is 3 and the fallback returns (2, 2, 4), whose
  working set of 20 is within the capacity of 100.
\<close>

theorem smallest_granularity_feasibility_witness:
  "GetSubgraphBoundary chainProblem [0, 1]
     = Some \<lparr> BoundaryInputs = [0, 1], BoundaryOutputs = [3], Ephemeral = [2],
              AllConsumed = [0, 1, 2], AllProduced = [2, 3] \<rparr>
   \<and> ComputeWorkingSet chainProblem [0, 1] (1, 1, 1) [] = Some 3
   \<and> GetMaxK chainProblem [0, 1] = Some 4
   \<and> FastMemoryCapacity chainProblem = 100
   \<and> (\<exists>g ws. findSmallestFeasible chainProblem [0, 1] [] = Some g
          \<and> ComputeWorkingSet chainProblem [0, 1] g [] = Some ws
          \<and> ws \<le> FastMemoryCapacity chainProblem)
   \<and> findSmallestFeasible chainProblem [0, 1] [] = Some (2, 2, 4)
   \<and> ComputeWorkingSet chainProblem [0, 1] (2, 2, 4) [] = Some 20"
proof -
  have g: "GetSubgraphBoundary chainProblem [0, 1]
     = Some \<lparr> BoundaryInputs = [0, 1], BoundaryOutputs = [3], Ephemeral = [2],
              AllConsumed = [0, 1, 2], AllProduced = [2, 3] \<rparr>" by code_simp
  have a: "ComputeWorkingSet chainProblem [0, 1] (1, 1, 1) [] = Some 3" by code_simp
  have c: "GetMaxK chainProblem [0, 1] = Some 4" by code_simp
  have d: "FastMemoryCapacity chainProblem = 100" by code_simp
  have e: "findSmallestFeasible chainProblem [0, 1] [] = Some (2, 2, 4)" by code_simp
  have f: "ComputeWorkingSet chainProblem [0, 1] (2, 2, 4) [] = Some 20" by code_simp
  from smallest_granularity_feasibility[of chainProblem "[0, 1]" _ 4 "[]" 3] a c
  obtain g' ws where "findSmallestFeasible chainProblem [0, 1] [] = Some g'"
      and "ComputeWorkingSet chainProblem [0, 1] g' [] = Some ws"
      and "3 \<le> FastMemoryCapacity chainProblem \<longrightarrow> ws \<le> FastMemoryCapacity chainProblem"
    by blast
  with d have "\<exists>g ws. findSmallestFeasible chainProblem [0, 1] [] = Some g
          \<and> ComputeWorkingSet chainProblem [0, 1] g [] = Some ws
          \<and> ws \<le> FastMemoryCapacity chainProblem" by auto
  with g a c d e f show ?thesis by simp
qed

text \<open>
  On \<open>tinyProblem\<close> (three boundary tensors, capacity 2) the working set at (1, 1, 1) is 3:
  the fallback returns (1, 1, 1), which does not fit.
\<close>

theorem smallest_granularity_counterexample:
  "ComputeWorkingSet tinyProblem [0] (1, 1, 1) [] = Some 3
   \<and> FastMemoryCapacity tinyProblem = 2
   \<and> findSmallestFeasible tinyProblem [0] [] = Some (1, 1, 1)"
  by code_simp


end
